theory Spec2Isabelle
  imports Complex_Main "HOL-Library.Multiset" "HOL-Library.AList"
begin

section \<open>JavaScript values used by the game code\<close>

text \<open>
  The game pages compute with JavaScript numbers. A finite number is modelled by the
  rational it denotes; the three non-finite values of the language are kept apart, because
  the mines multiplier divides by zero on the last safe cell and relies on the result
  being \<open>Infinity\<close>. Rounding of binary floating point and the sign of zero are not
  modelled: arithmetic on finite values is exact.
\<close>

datatype jsnum = Fin rat | PosInf | NegInf | NaN

fun js_sub :: "jsnum \<Rightarrow> jsnum \<Rightarrow> jsnum" where
  "js_sub NaN _ = NaN"
| "js_sub _ NaN = NaN"
| "js_sub (Fin a) (Fin b) = Fin (a - b)"
| "js_sub (Fin a) PosInf = NegInf"
| "js_sub (Fin a) NegInf = PosInf"
| "js_sub PosInf PosInf = NaN"
| "js_sub PosInf _ = PosInf"
| "js_sub NegInf NegInf = NaN"
| "js_sub NegInf _ = NegInf"




fun js_mul :: "jsnum \<Rightarrow> jsnum \<Rightarrow> jsnum" where
  "js_mul NaN _ = NaN"
| "js_mul _ NaN = NaN"
| "js_mul (Fin a) (Fin b) = Fin (a * b)"
| "js_mul (Fin a) PosInf = (if a = 0 then NaN else if 0 < a then PosInf else NegInf)"
| "js_mul (Fin a) NegInf = (if a = 0 then NaN else if 0 < a then NegInf else PosInf)"
| "js_mul PosInf (Fin b) = (if b = 0 then NaN else if 0 < b then PosInf else NegInf)"
| "js_mul NegInf (Fin b) = (if b = 0 then NaN else if 0 < b then NegInf else PosInf)"
| "js_mul PosInf PosInf = PosInf"
| "js_mul NegInf NegInf = PosInf"
| "js_mul _ _ = NegInf"

text \<open>\<open>Math.floor\<close> leaves the non-finite values as they are.\<close>

fun js_floor :: "jsnum \<Rightarrow> jsnum" where
  "js_floor (Fin a) = Fin (of_int \<lfloor>a\<rfloor>)"
| "js_floor x = x"

text \<open>
  \<open>BigInt(x)\<close> converts a number with an integral value and throws a \<open>RangeError\<close> on
  every other number (a fraction, \<open>NaN\<close>, an infinity); \<open>None\<close> is the throw.
\<close>

fun BigInt :: "jsnum \<Rightarrow> int option" where
  "BigInt (Fin a) = (if of_int \<lfloor>a\<rfloor> = a then Some \<lfloor>a\<rfloor> else None)"
| "BigInt _ = None"

text \<open>
  JSON values stored in a bet's \<open>outcome\<close> column or in an admin log's \<open>details\<close>; an
  object is a list of key and value pairs, read with \<open>map_of\<close> and written with
  \<open>AList.update\<close> (the object spread \<open>{...outcome, key: v}\<close>). A timestamp
  \<open>new Date().toISOString()\<close> is stored as the clock value it prints.
\<close>

datatype json = JNull | JBool bool | JNum jsnum | JStr string

type_synonym jobject = "(string \<times> json) list"

section \<open>Permission matrix (\<open>PermissionManager\<close>)\<close>

text \<open>
  Roles are raw strings in the source and are compared with \<open>===\<close>. The validator
  returns an object \<open>{ valid, reason? }\<close>. Its first parameter \<open>currentRole\<close> is the
  target account's present role and its second parameter \<open>targetRole\<close> is the role to be
  assigned: the bulk-action route calls it with \<open>(targetUser.role, 'ADMIN' | 'PLAYER',
  actor.role)\<close>.
\<close>

record validation =
  valid :: bool
  reason :: "string option"

definition isProtectedAction :: "string \<Rightarrow> string \<Rightarrow> string \<Rightarrow> bool" where
  "isProtectedAction act targetRole actorRole =
     (if targetRole = ''OWNER'' \<and> actorRole \<noteq> ''OWNER'' then True
      else if targetRole = ''ADMIN'' \<and> actorRole \<noteq> ''OWNER'' then True
      else False)"

definition validatePermissionTransition :: "string \<Rightarrow> string \<Rightarrow> string \<Rightarrow> validation" where
  "validatePermissionTransition currentRole targetRole actorRole =
     (if actorRole = ''OWNER'' then \<lparr>valid = True, reason = None\<rparr>
      else if actorRole = ''ADMIN'' \<and> (targetRole = ''OWNER'' \<or> targetRole = ''ADMIN'')
        then \<lparr>valid = False,
              reason = Some ''Admins cannot modify owner or other admin accounts''\<rparr>
      else if actorRole = ''ADMIN'' \<and> targetRole \<noteq> ''PLAYER''
        then \<lparr>valid = False, reason = Some ''Admins can only assign player roles''\<rparr>
      else if actorRole = ''PLAYER''
        then \<lparr>valid = False, reason = Some ''Players cannot modify user roles''\<rparr>
      else \<lparr>valid = True, reason = None\<rparr>)"

section \<open>Crash game page: \<open>startNewRound\<close>\<close>

text \<open>
  \<open>startNewRound\<close> reads the clock twice and draws \<open>Math.random()\<close>, a number in
  \<open>[0, 1)\<close>, once; the three are parameters here. The round identifier
  \<open>round_${Date.now()}\<close> is represented by the clock value it is built from. The house
  edge and the bounds that the seeded \<open>crash_config\<close> holds are not read by the page.
\<close>

datatype round_status = waiting | active | crashed

record GameRound =
  round_id :: int
  startTime :: int
  round_multiplier :: rat
  status :: round_status
  crashPoint :: rat

definition startNewRound :: "int \<Rightarrow> int \<Rightarrow> rat \<Rightarrow> GameRound" where
  "startNewRound idClock startClock rnd =
     (let roundId = idClock;
          crashPoint = 1 + rnd * 50
      in \<lparr>round_id = roundId, startTime = startClock, round_multiplier = 1, status = waiting,
          crashPoint = crashPoint\<rparr>)"

section \<open>Plinko payout tables\<close>

datatype risk = low | medium | high

fun PAYOUT_TABLES :: "risk \<Rightarrow> rat list" where
  "PAYOUT_TABLES low = [5.6, 2.1, 1.1, 1.0, 0.5, 1.0, 1.1, 2.1, 5.6]"
| "PAYOUT_TABLES medium = [13, 3.0, 1.3, 0.7, 0.4, 0.7, 1.3, 3.0, 13]"
| "PAYOUT_TABLES high = [29, 4.0, 1.5, 0.6, 0.2, 0.6, 1.5, 4.0, 29]"

section \<open>Mines game page\<close>


text \<open>
  \<open>initializeGame\<close> builds three \<open>gridSize\<close> by \<open>gridSize\<close> arrays of \<open>false\<close>, shuffles
  the cell numbers \<open>0 .. gridSize\<^sup>2 - 1\<close> with \<open>sort(() => Math.random() - 0.5)\<close>, takes the
  first \<open>mineCount\<close> of them and marks each in \<open>grid\<close>. The array the engine's sort leaves
  is the parameter \<open>shuffled\<close>: whatever the random comparator answers, a sort moves
  elements and returns a permutation of its input, which is all the theorems assume of
  it. The bet amount carried over from the previous state and the two generated strings
  are parameters too.

  Writing \<open>grid[row][col] = true\<close> throws when \<open>grid[row]\<close> is undefined (\<open>None\<close> below),
  and extends the row when \<open>col\<close> is past its end; the holes this leaves read as
  \<open>undefined\<close>, which is false where the page tests a cell.
\<close>

record GameState =
  grid :: "bool list list"
  revealed :: "bool list list"
  flagged :: "bool list list"
  mines :: nat
  betAmount :: rat
  currentMultiplier :: jsnum
  gameActive :: bool
  gameOver :: bool
  won :: bool
  serverSeed :: string
  clientNonce :: string

definition array_set :: "bool list \<Rightarrow> nat \<Rightarrow> bool \<Rightarrow> bool list" where
  "array_set xs i v =
     (if i < length xs then xs[i := v] else xs @ replicate (i - length xs) False @ [v])"

definition placeMine :: "nat \<Rightarrow> bool list list \<Rightarrow> nat \<Rightarrow> bool list list option" where
  "placeMine gridSize g pos =
     (let row = pos div gridSize; col = pos mod gridSize
      in if row < length g then Some (g[row := array_set (g ! row) col True]) else None)"

fun placeMines :: "nat \<Rightarrow> nat list \<Rightarrow> bool list list \<Rightarrow> bool list list option" where
  "placeMines gridSize [] g = Some g"
| "placeMines gridSize (pos # rest) g =
     (case placeMine gridSize g pos of
        None \<Rightarrow> None
      | Some g' \<Rightarrow> placeMines gridSize rest g')"

definition initializeGame ::
  "nat \<Rightarrow> nat \<Rightarrow> rat \<Rightarrow> nat list \<Rightarrow> string \<Rightarrow> string \<Rightarrow> GameState option" where
  "initializeGame gridSize mineCount bet shuffled seed nonce =
     (let empty = replicate gridSize (replicate gridSize False);
          minePositions = take mineCount shuffled
      in case placeMines gridSize minePositions empty of
           None \<Rightarrow> None
         | Some g \<Rightarrow>
             Some \<lparr>grid = g, revealed = empty, flagged = empty, mines = mineCount,
                   betAmount = bet, currentMultiplier = Fin 1, gameActive = True,
                   gameOver = False, won = False, serverSeed = seed, clientNonce = nonce\<rparr>)"

text \<open>The shape of a grid of the page: \<open>n\<close> rows of \<open>n\<close> cells.\<close>

definition square :: "nat \<Rightarrow> bool list list \<Rightarrow> bool" where
  "square n g \<longleftrightarrow> length g = n \<and> (\<forall>row \<in> set g. length row = n)"

section \<open>The database and the session check shared by the API routes\<close>

text \<open>
  The Prisma tables the routes read and write, each a list of rows in table order, with
  the columns the routes use. \<open>findUnique\<close> and \<open>findFirst\<close> return the first matching
  row; \<open>update\<close> rewrites the rows with the given key (the key is the table's primary
  key, and every caller has just read the row it updates); \<open>deleteMany\<close> removes the
  matching rows; \<open>create\<close> appends a row.
\<close>

record user =
  user_id :: nat
  role :: string
  gems :: int
  crystals :: int
  level :: int
  is_banned :: bool

record session =
  session_token :: string
  session_user_id :: nat
  expires :: int

record bet =
  bet_id :: string
  bet_user_id :: nat
  game :: string
  amount :: int
  outcome :: jobject
  profit :: int

record adminLog =
  admin_id :: nat
  action :: string
  target_id :: "nat option"
  details :: "jobject option"

record db =
  users :: "user list"
  sessions :: "session list"
  bets :: "bet list"
  adminLogs :: "adminLog list"

definition user_findUnique :: "db \<Rightarrow> nat \<Rightarrow> user option" where
  "user_findUnique d uid = find (\<lambda>u. user_id u = uid) (users d)"

definition user_update :: "nat \<Rightarrow> (user \<Rightarrow> user) \<Rightarrow> db \<Rightarrow> db" where
  "user_update uid f d = d\<lparr>users := map (\<lambda>u. if user_id u = uid then f u else u) (users d)\<rparr>"

definition bet_findUnique :: "db \<Rightarrow> string \<Rightarrow> bet option" where
  "bet_findUnique d bid = find (\<lambda>b. bet_id b = bid) (bets d)"

definition bet_update :: "string \<Rightarrow> (bet \<Rightarrow> bet) \<Rightarrow> db \<Rightarrow> db" where
  "bet_update bid f d = d\<lparr>bets := map (\<lambda>b. if bet_id b = bid then f b else b) (bets d)\<rparr>"

definition bet_create :: "bet \<Rightarrow> db \<Rightarrow> db" where
  "bet_create b d = d\<lparr>bets := bets d @ [b]\<rparr>"

definition session_deleteMany :: "nat \<Rightarrow> db \<Rightarrow> db" where
  "session_deleteMany uid d = d\<lparr>sessions := filter (\<lambda>s. session_user_id s \<noteq> uid) (sessions d)\<rparr>"

definition adminLog_create :: "adminLog \<Rightarrow> db \<Rightarrow> db" where
  "adminLog_create l d = d\<lparr>adminLogs := adminLogs d @ [l]\<rparr>"

text \<open>
  A route answers with \<open>NextResponse.json\<close>: an error body with an HTTP status, or a
  success body. Every route's \<open>catch\<close> block answers \<open>500 Internal server error\<close>.
\<close>

datatype 'a response = Error nat string | Success 'a

text \<open>
  Every route starts with the same lines: read the \<open>session-token\<close> cookie (absent or
  empty: 401), find the session (missing or \<open>expires < new Date()\<close>: 401), and read the
  session's user. What a route requires of that user differs and follows in each route.
  \<open>now\<close> is the clock.
\<close>

definition verify_session :: "db \<Rightarrow> int \<Rightarrow> string option \<Rightarrow> (nat \<times> string) + user option" where
  "verify_session d now cookie =
     (case cookie of
        None \<Rightarrow> Inl (401, ''No session'')
      | Some sessionToken \<Rightarrow>
          if sessionToken = [] then Inl (401, ''No session'')
          else (case find (\<lambda>s. session_token s = sessionToken) (sessions d) of
                  None \<Rightarrow> Inl (401, ''Invalid session'')
                | Some s \<Rightarrow>
                    if expires s < now then Inl (401, ''Invalid session'')
                    else Inr (user_findUnique d (session_user_id s))))"

section \<open>Game API routes\<close>

text \<open>
  Request bodies come from \<open>request.json()\<close>. \<open>amount\<close> is taken to be a finite number; a
  fractional amount makes \<open>BigInt(amount)\<close> throw, which the route's \<open>catch\<close> turns into
  status 500 before anything is written. \<open>multiplier\<close> is any JavaScript number. The
  identifier of a new bet is \<open>uuidv4()\<close>, a parameter here.
\<close>

record plinko_drop_request =
  drop_amount :: rat
  drop_rows :: json
  drop_risk :: json
  drop_slot :: json
  drop_multiplier :: jsnum

record plinko_drop_result =
  drop_winnings :: jsnum
  drop_new_balance :: int

definition plinko_drop_POST ::
  "int \<Rightarrow> string option \<Rightarrow> string \<Rightarrow> plinko_drop_request \<Rightarrow> db
   \<Rightarrow> plinko_drop_result response \<times> db" where
  "plinko_drop_POST now cookie uuid rq d =
     (case verify_session d now cookie of
        Inl (st, msg) \<Rightarrow> (Error st msg, d)
      | Inr None \<Rightarrow> (Error 403 ''User not found or banned'', d)
      | Inr (Some user) \<Rightarrow>
          if is_banned user then (Error 403 ''User not found or banned'', d)
          else if drop_amount rq < 1 \<or> drop_amount rq > 100000
            then (Error 400 ''Invalid bet amount'', d)
          else (case BigInt (Fin (drop_amount rq)) of
                  None \<Rightarrow> (Error 500 ''Internal server error'', d)
                | Some stake \<Rightarrow>
                    if gems user < stake then (Error 400 ''Insufficient gems'', d)
                    else
                      (let winnings = js_floor (js_mul (Fin (drop_amount rq)) (drop_multiplier rq));
                           profit = js_sub winnings (Fin (drop_amount rq))
                       in case BigInt profit of
                            None \<Rightarrow> (Error 500 ''Internal server error'', d)
                          | Some p \<Rightarrow>
                              (Success \<lparr>drop_winnings = winnings, drop_new_balance = gems user + p\<rparr>,
                               bet_create
                                 \<lparr>bet_id = uuid, bet_user_id = user_id user, game = ''plinko'',
                                  amount = stake,
                                  outcome = [(''rows'', drop_rows rq), (''risk'', drop_risk rq),
                                             (''slot'', drop_slot rq),
                                             (''multiplier'', JNum (drop_multiplier rq))],
                                  profit = p\<rparr>
                                 (user_update (user_id user) (\<lambda>u. u\<lparr>gems := gems user + p\<rparr>) d)))))"

record mines_bet_request =
  mines_amount :: rat
  grid_size :: json
  mines_count :: json
  server_seed :: json
  client_nonce :: json

record mines_bet_result =
  placed_bet_id :: string
  placed_new_balance :: int

definition mines_bet_POST ::
  "int \<Rightarrow> string option \<Rightarrow> string \<Rightarrow> mines_bet_request \<Rightarrow> db
   \<Rightarrow> mines_bet_result response \<times> db" where
  "mines_bet_POST now cookie uuid rq d =
     (case verify_session d now cookie of
        Inl (st, msg) \<Rightarrow> (Error st msg, d)
      | Inr None \<Rightarrow> (Error 403 ''User not found or banned'', d)
      | Inr (Some user) \<Rightarrow>
          if is_banned user then (Error 403 ''User not found or banned'', d)
          else if mines_amount rq < 1 \<or> mines_amount rq > 100000
            then (Error 400 ''Invalid bet amount'', d)
          else (case BigInt (Fin (mines_amount rq)) of
                  None \<Rightarrow> (Error 500 ''Internal server error'', d)
                | Some stake \<Rightarrow>
                    if gems user < stake then (Error 400 ''Insufficient gems'', d)
                    else
                      (Success \<lparr>placed_bet_id = uuid, placed_new_balance = gems user - stake\<rparr>,
                       bet_create
                         \<lparr>bet_id = uuid, bet_user_id = user_id user, game = ''mines'',
                          amount = stake,
                          outcome = [(''grid_size'', grid_size rq), (''mines_count'', mines_count rq),
                                     (''server_seed'', server_seed rq),
                                     (''client_nonce'', client_nonce rq),
                                     (''status'', JStr ''active'')],
                          profit = - stake\<rparr>
                         (user_update (user_id user) (\<lambda>u. u\<lparr>gems := gems user - stake\<rparr>) d))))"

record cashout_result =
  cashout_winnings :: int
  cashout_new_balance :: int

record mines_cashout_request =
  cashout_bet_id :: string
  cashout_multiplier :: jsnum
  cells_revealed :: json

definition mines_cashout_POST ::
  "int \<Rightarrow> string option \<Rightarrow> mines_cashout_request \<Rightarrow> db \<Rightarrow> cashout_result response \<times> db" where
  "mines_cashout_POST now cookie rq d =
     (case verify_session d now cookie of
        Inl (st, msg) \<Rightarrow> (Error st msg, d)
      | Inr None \<Rightarrow> (Error 403 ''User not found or banned'', d)
      | Inr (Some user) \<Rightarrow>
          if is_banned user then (Error 403 ''User not found or banned'', d)
          else (case bet_findUnique d (cashout_bet_id rq) of
                  None \<Rightarrow> (Error 404 ''Bet not found'', d)
                | Some b \<Rightarrow>
                    if bet_user_id b \<noteq> user_id user then (Error 404 ''Bet not found'', d)
                    else if map_of (outcome b) ''status'' \<noteq> Some (JStr ''active'')
                      then (Error 400 ''Bet already completed'', d)
                    else
                      (let winnings = js_floor (js_mul (Fin (of_int (amount b))) (cashout_multiplier rq))
                       in case BigInt winnings of
                            None \<Rightarrow> (Error 500 ''Internal server error'', d)
                          | Some w \<Rightarrow>
                              (Success \<lparr>cashout_winnings = w, cashout_new_balance = gems user + w\<rparr>,
                               bet_update (cashout_bet_id rq)
                                 (\<lambda>r. r\<lparr>outcome :=
                                           AList.update ''cells_revealed'' (cells_revealed rq)
                                             (AList.update ''multiplier'' (JNum (cashout_multiplier rq))
                                                (AList.update ''status'' (JStr ''won'') (outcome b))),
                                         profit := w - amount b\<rparr>)
                                 (user_update (user_id user) (\<lambda>u. u\<lparr>gems := gems user + w\<rparr>) d)))))"

record crash_cashout_request =
  cashout_round_id :: json
  crash_multiplier :: jsnum

definition crash_cashout_POST ::
  "int \<Rightarrow> string option \<Rightarrow> crash_cashout_request \<Rightarrow> db \<Rightarrow> cashout_result response \<times> db" where
  "crash_cashout_POST now cookie rq d =
     (case verify_session d now cookie of
        Inl (st, msg) \<Rightarrow> (Error st msg, d)
      | Inr None \<Rightarrow> (Error 403 ''User not found or banned'', d)
      | Inr (Some user) \<Rightarrow>
          if is_banned user then (Error 403 ''User not found or banned'', d)
          else (case find (\<lambda>b. bet_user_id b = user_id user \<and> game b = ''crash''
                               \<and> map_of (outcome b) ''round_id'' = Some (cashout_round_id rq))
                       (bets d) of
                  None \<Rightarrow> (Error 404 ''Bet not found'', d)
                | Some b \<Rightarrow>
                    if map_of (outcome b) ''status'' \<noteq> Some (JStr ''active'')
                      then (Error 400 ''Bet already cashed out'', d)
                    else
                      (let winnings = js_floor (js_mul (Fin (of_int (amount b))) (crash_multiplier rq))
                       in case BigInt winnings of
                            None \<Rightarrow> (Error 500 ''Internal server error'', d)
                          | Some w \<Rightarrow>
                              (Success \<lparr>cashout_winnings = w, cashout_new_balance = gems user + w\<rparr>,
                               bet_update (bet_id b)
                                 (\<lambda>r. r\<lparr>outcome :=
                                           AList.update ''cashout_multiplier'' (JNum (crash_multiplier rq))
                                             (AList.update ''status'' (JStr ''won'') (outcome b)),
                                         profit := w - amount b\<rparr>)
                                 (user_update (user_id user) (\<lambda>u. u\<lparr>gems := gems user + w\<rparr>) d)))))"

section \<open>Administration routes\<close>

text \<open>
  The single ban route. \<open>parseInt(params.id)\<close> is the parameter \<open>target\<close>; \<open>None\<close> is
  \<open>NaN\<close>, which the Prisma client refuses with an exception.
\<close>

definition ban_POST :: "int \<Rightarrow> string option \<Rightarrow> nat option \<Rightarrow> db \<Rightarrow> unit response \<times> db" where
  "ban_POST now cookie target d =
     (case verify_session d now cookie of
        Inl (st, msg) \<Rightarrow> (Error st msg, d)
      | Inr None \<Rightarrow> (Error 403 ''Admin privileges required'', d)
      | Inr (Some admin) \<Rightarrow>
          if role admin \<noteq> ''ADMIN'' \<and> role admin \<noteq> ''OWNER''
            then (Error 403 ''Admin privileges required'', d)
          else (case target of
                  None \<Rightarrow> (Error 500 ''Internal server error'', d)
                | Some userId \<Rightarrow>
                    (case user_findUnique d userId of
                       None \<Rightarrow> (Error 404 ''User not found'', d)
                     | Some targetUser \<Rightarrow>
                         if role targetUser = ''OWNER'' then (Error 403 ''Cannot ban owner'', d)
                         else if role targetUser = ''ADMIN'' \<and> role admin \<noteq> ''OWNER''
                           then (Error 403 ''Only owner can ban admins'', d)
                         else
                           (Success (),
                            adminLog_create
                              \<lparr>admin_id = user_id admin, action = ''BAN_USER'',
                               target_id = Some userId, details = None\<rparr>
                              (session_deleteMany userId
                                 (user_update userId (\<lambda>u. u\<lparr>is_banned := True\<rparr>) d))))))"

text \<open>
  The bulk-action route. Its first loop sorts the found users into valid and invalid
  targets; its transaction then walks the valid targets. Inside the transaction the
  \<open>tx.user.update\<close> promises are collected without being awaited and run at the final
  \<open>Promise.all\<close>, after the log entries and session deletions of the loop.
\<close>

record bulk_action_request =
  bulk_action :: string
  user_ids :: "nat list"

record bulk_action_result =
  processed :: nat
  valid_targets :: nat
  invalid_targets :: "(nat \<times> string) list"
  result_action :: string

fun validate_targets :: "string \<Rightarrow> user \<Rightarrow> user list \<Rightarrow> nat list \<times> (nat \<times> string) list" where
  "validate_targets act actor [] = ([], [])"
| "validate_targets act actor (targetUser # rest) =
     (let (validTargets, invalidTargets) = validate_targets act actor rest
      in if role targetUser = ''OWNER''
           then (validTargets, (user_id targetUser, ''Cannot modify owner account'') # invalidTargets)
         else if act = ''promote'' \<or> act = ''demote''
           then (let validation =
                       validatePermissionTransition (role targetUser)
                         (if act = ''promote'' then ''ADMIN'' else ''PLAYER'') (role actor)
                 in if valid validation then (user_id targetUser # validTargets, invalidTargets)
                    else (validTargets,
                          (user_id targetUser,
                           (case reason validation of
                              None \<Rightarrow> ''Permission denied''
                            | Some r \<Rightarrow> if r = [] then ''Permission denied'' else r))
                          # invalidTargets))
         else (user_id targetUser # validTargets, invalidTargets))"

definition updateData :: "string \<Rightarrow> user \<Rightarrow> user" where
  "updateData act u =
     (if act = ''ban'' then u\<lparr>is_banned := True\<rparr>
      else if act = ''unban'' then u\<lparr>is_banned := False\<rparr>
      else if act = ''promote'' then u\<lparr>role := ''ADMIN''\<rparr>
      else if act = ''demote'' then u\<lparr>role := ''PLAYER''\<rparr>
      else u)"

definition bulk_log :: "int \<Rightarrow> string \<Rightarrow> user \<Rightarrow> nat \<Rightarrow> nat \<Rightarrow> adminLog" where
  "bulk_log now act actor target_count userId =
     \<lparr>admin_id = user_id actor,
      action = ''BULK_'' @ (if act = ''ban'' then ''BAN'' else if act = ''unban'' then ''UNBAN''
                            else if act = ''promote'' then ''PROMOTE'' else ''DEMOTE''),
      target_id = Some userId,
      details = Some [(''bulk_action'', JBool True), (''action_type'', JStr act),
                      (''target_count'', JNum (Fin (of_nat target_count))),
                      (''timestamp'', JNum (Fin (of_int now)))]\<rparr>"

definition bulk_step :: "int \<Rightarrow> string \<Rightarrow> user \<Rightarrow> nat \<Rightarrow> nat \<Rightarrow> db \<Rightarrow> db" where
  "bulk_step now act actor target_count userId d =
     (let d1 = adminLog_create (bulk_log now act actor target_count userId) d
      in if act = ''ban'' then session_deleteMany userId d1 else d1)"

definition bulk_transaction :: "int \<Rightarrow> string \<Rightarrow> user \<Rightarrow> nat list \<Rightarrow> db \<Rightarrow> db" where
  "bulk_transaction now act actor validTargets d =
     fold (\<lambda>userId. user_update userId (updateData act)) validTargets
       (fold (bulk_step now act actor (length validTargets)) validTargets d)"

definition bulk_action_POST ::
  "int \<Rightarrow> string option \<Rightarrow> bulk_action_request \<Rightarrow> db \<Rightarrow> bulk_action_result response \<times> db" where
  "bulk_action_POST now cookie rq d =
     (case verify_session d now cookie of
        Inl (st, msg) \<Rightarrow> (Error st msg, d)
      | Inr None \<Rightarrow> (Error 403 ''Owner privileges required'', d)
      | Inr (Some actor) \<Rightarrow>
          if role actor \<noteq> ''OWNER'' then (Error 403 ''Owner privileges required'', d)
          else if user_ids rq = [] then (Error 400 ''No users selected'', d)
          else if bulk_action rq \<notin> set [''ban'', ''unban'', ''promote'', ''demote'']
            then (Error 400 ''Invalid action'', d)
          else
            (let targetUsers = filter (\<lambda>u. user_id u \<in> set (user_ids rq)) (users d);
                 (validTargets, invalidTargets) = validate_targets (bulk_action rq) actor targetUsers
             in (Success \<lparr>processed = length validTargets, valid_targets = length validTargets,
                          invalid_targets = invalidTargets, result_action = bulk_action rq\<rparr>,
                 bulk_transaction now (bulk_action rq) actor validTargets d)))"

section \<open>Owner manager\<close>

record OwnerConfig =
  initialGems :: int
  initialLevel :: int
  initialCrystals :: int

definition OWNER_CONFIG :: OwnerConfig where
  "OWNER_CONFIG = \<lparr>initialGems = 1000000, initialLevel = 100, initialCrystals = 10000\<rparr>"

text \<open>
  \<open>getOwner\<close> is \<open>findFirst\<close> over the users whose role is \<open>OWNER\<close>, ordered by ascending
  \<open>user_id\<close>: the owner row with the least identifier.
\<close>

definition getOwner :: "db \<Rightarrow> user option" where
  "getOwner d =
     (case filter (\<lambda>u. role u = ''OWNER'') (users d) of
        [] \<Rightarrow> None
      | u # us \<Rightarrow> Some (arg_min_list user_id (u # us)))"

definition isOwner :: "db \<Rightarrow> nat \<Rightarrow> bool" where
  "isOwner d userId = (case getOwner d of None \<Rightarrow> False | Some owner \<Rightarrow> user_id owner = userId)"

definition transferOwnership :: "int \<Rightarrow> nat \<Rightarrow> nat \<Rightarrow> db \<Rightarrow> bool \<times> db" where
  "transferOwnership now fromUserId toUserId d =
     (if \<not> isOwner d fromUserId then (False, d)
      else if fromUserId = toUserId then (False, d)
      else (case user_findUnique d toUserId of
              None \<Rightarrow> (False, d)
            | Some targetUser \<Rightarrow>
                if is_banned targetUser then (False, d)
                else
                  (True,
                   adminLog_create
                     \<lparr>admin_id = fromUserId, action = ''TRANSFER_OWNERSHIP'',
                      target_id = Some toUserId,
                      details = Some [(''previous_owner'', JNum (Fin (of_nat fromUserId))),
                                      (''new_owner'', JNum (Fin (of_nat toUserId))),
                                      (''timestamp'', JNum (Fin (of_int now)))]\<rparr>
                     (user_update toUserId
                        (\<lambda>u. u\<lparr>role := ''OWNER'',
                                gems := gems targetUser + initialGems OWNER_CONFIG,
                                level := max (level targetUser) (initialLevel OWNER_CONFIG),
                                crystals := crystals targetUser + initialCrystals OWNER_CONFIG\<rparr>)
                        (user_update fromUserId (\<lambda>u. u\<lparr>role := ''ADMIN''\<rparr>) d)))))"

section \<open>Example states\<close>

text \<open>
  A small database on which the theorems below are instantiated: the owner and one player,
  each with a live session, and the player's open mines and crash bets.
\<close>

definition example_owner :: user where
  "example_owner = \<lparr>user_id = 1, role = ''OWNER'', gems = 1000000, crystals = 10000, level = 100,
                     is_banned = False\<rparr>"

definition example_player :: user where
  "example_player = \<lparr>user_id = 2, role = ''PLAYER'', gems = 100, crystals = 0, level = 1,
                      is_banned = False\<rparr>"

definition example_mines_bet :: bet where
  "example_mines_bet = \<lparr>bet_id = ''b1'', bet_user_id = 2, game = ''mines'', amount = 100,
       outcome = [(''grid_size'', JNum (Fin 5)), (''mines_count'', JNum (Fin 5)),
                  (''status'', JStr ''active'')],
       profit = - 100\<rparr>"

definition example_crash_bet :: bet where
  "example_crash_bet = \<lparr>bet_id = ''b2'', bet_user_id = 2, game = ''crash'', amount = 40,
       outcome = [(''round_id'', JStr ''round_7''), (''status'', JStr ''active'')],
       profit = - 40\<rparr>"

definition example_db :: db where
  "example_db =
     \<lparr>users = [example_owner, example_player],
      sessions = [\<lparr>session_token = ''tok1'', session_user_id = 1, expires = 100\<rparr>,
                  \<lparr>session_token = ''tok2'', session_user_id = 2, expires = 100\<rparr>],
      bets = [example_mines_bet, example_crash_bet],
      adminLogs = []\<rparr>"

text \<open>
  The same database after the owner has set the player's role to \<open>OWNER\<close> through
  \<open>PATCH /api/owner/user/2\<close>, which writes the request body into the user row.
\<close>

definition two_owner_db :: db where
  "two_owner_db = example_db\<lparr>users := [example_owner, example_player\<lparr>role := ''OWNER''\<rparr>]\<rparr>"

section \<open>Properties\<close>

subsection \<open>Role transitions\<close>

text \<open>
  Claim C1, second scenario. An \<open>ADMIN\<close> actor asks to set a fellow \<open>ADMIN\<close>'s role to
  \<open>PLAYER\<close>. The validator tests the role to be assigned where its comment speaks of the
  account being modified, never reads \<open>currentRole\<close>, and answers \<open>valid: true\<close>; the
  sibling check \<open>isProtectedAction\<close> protects the same target from the same actor.
\<close>

theorem validatePermissionTransition_admin_demotes_admin:
  "valid (validatePermissionTransition ''ADMIN'' ''PLAYER'' ''ADMIN'')
   \<and> reason (validatePermissionTransition ''ADMIN'' ''PLAYER'' ''ADMIN'') = None
   \<and> isProtectedAction ''demote'' ''ADMIN'' ''ADMIN''"
  by (simp add: validatePermissionTransition_def isProtectedAction_def)

text \<open>The other three scenarios of the claim are answered as the specification says.\<close>

lemma validatePermissionTransition_owner_demotes_admin:
  "valid (validatePermissionTransition ''ADMIN'' ''PLAYER'' ''OWNER'')"
  by (simp add: validatePermissionTransition_def)

lemma validatePermissionTransition_admin_promotes_player:
  "\<not> valid (validatePermissionTransition ''PLAYER'' ''ADMIN'' ''ADMIN'')"
  by (simp add: validatePermissionTransition_def)

lemma validatePermissionTransition_player_actor:
  "\<not> valid (validatePermissionTransition currentRole targetRole ''PLAYER'')"
  by (simp add: validatePermissionTransition_def)

lemma validatePermissionTransition_ignores_currentRole:
  "validatePermissionTransition c targetRole actorRole =
   validatePermissionTransition c' targetRole actorRole"
  by (simp add: validatePermissionTransition_def)

subsection \<open>Crash point\<close>

text \<open>
  Claim C2, as amended. For a draw \<open>u\<close> in \<open>[0, 1)\<close> the round starts with crash point
  \<open>1 + 50 u\<close>, a value in \<open>[1, 51)\<close>; the page applies no house-edge factor and no clamp.
\<close>

theorem startNewRound_crashPoint:
  assumes "0 \<le> rnd" "rnd < 1"
  shows "crashPoint (startNewRound idClock startClock rnd) = 1 + rnd * 50
       \<and> 1 \<le> crashPoint (startNewRound idClock startClock rnd)
       \<and> crashPoint (startNewRound idClock startClock rnd) < 51"
  using assms by (simp add: startNewRound_def)

theorem startNewRound_crashPoint_witness:
  "(0::rat) \<le> 1 / 2 \<and> (1 / 2 :: rat) < 1 \<and> crashPoint (startNewRound 0 0 (1 / 2)) = 26"
  using startNewRound_crashPoint [of "1 / 2" 0 0] by simp

text \<open>
  The claim as first stated fails: when \<open>Math.random()\<close> returns 0 the crash point is
  exactly 1, below the lower bound 1.01 that a clamp would enforce.
\<close>

theorem startNewRound_crashPoint_counterexample:
  "crashPoint (startNewRound 0 0 0) = 1 \<and> crashPoint (startNewRound 0 0 0) < 1.01"
  by (simp add: startNewRound_def)

subsection \<open>Payout tables\<close>

text \<open>
  Claim C9. Each of the three tables has odd length, reads the same in both directions,
  has a middle entry below 1, and its first and last entries are its greatest entry.
\<close>

theorem PAYOUT_TABLES_shape:
  "\<forall>r. odd (length (PAYOUT_TABLES r))
     \<and> rev (PAYOUT_TABLES r) = PAYOUT_TABLES r
     \<and> PAYOUT_TABLES r ! (length (PAYOUT_TABLES r) div 2) < 1
     \<and> hd (PAYOUT_TABLES r) = Max (set (PAYOUT_TABLES r))
     \<and> last (PAYOUT_TABLES r) = Max (set (PAYOUT_TABLES r))"
proof
  fix r
  show "odd (length (PAYOUT_TABLES r))
     \<and> rev (PAYOUT_TABLES r) = PAYOUT_TABLES r
     \<and> PAYOUT_TABLES r ! (length (PAYOUT_TABLES r) div 2) < 1
     \<and> hd (PAYOUT_TABLES r) = Max (set (PAYOUT_TABLES r))
     \<and> last (PAYOUT_TABLES r) = Max (set (PAYOUT_TABLES r))"
    by (cases r) simp_all
qed

subsection \<open>Mines multiplier\<close>




subsection \<open>Lookups after an update\<close>

lemmas example_defs =
  example_db_def example_owner_def example_player_def example_mines_bet_def example_crash_bet_def

lemma find_map_preserved:
  assumes "\<And>x. P (g x) = P x"
  shows "find P (map g xs) = map_option g (find P xs)"
  using assms by (induction xs) simp_all

lemma find_SomeD: "find P xs = Some x \<Longrightarrow> P x"
  by (auto simp: find_Some_iff)


lemma verify_session_frame:
  assumes "sessions d' = sessions d"
    and "users d' = map g (users d)"
    and "\<And>u. user_id (g u) = user_id u"
  shows "verify_session d' now cookie = map_sum id (map_option g) (verify_session d now cookie)"
proof -
  have "user_findUnique d' uid = map_option g (user_findUnique d uid)" for uid
    unfolding user_findUnique_def assms(2)
    by (rule find_map_preserved) (simp add: assms(3))
  then show ?thesis
    by (simp add: verify_session_def assms(1) split: option.splits)
qed

lemma verify_session_settled:
  assumes "verify_session d now cookie = Inr (Some u)"
  shows "verify_session (bet_update bid f (user_update (user_id u) (\<lambda>x. x\<lparr>gems := g\<rparr>) d)) now cookie =
         Inr (Some (u\<lparr>gems := g\<rparr>))"
proof -
  let ?g = "\<lambda>x. if user_id x = user_id u then x\<lparr>gems := g\<rparr> else x"
  have "verify_session (bet_update bid f (user_update (user_id u) (\<lambda>x. x\<lparr>gems := g\<rparr>) d)) now cookie =
        map_sum id (map_option ?g) (verify_session d now cookie)"
    by (rule verify_session_frame) (simp_all add: bet_update_def user_update_def)
  then show ?thesis by (simp add: assms)
qed









subsection \<open>Cash-out\<close>




subsection \<open>Bans\<close>

lemma validate_targets_ban:
  "fst (validate_targets ''ban'' actor us) = map user_id (filter (\<lambda>u. role u \<noteq> ''OWNER'') us)"
  by (induction us) (simp_all add: case_prod_beta)

lemma sessions_user_update [simp]: "sessions (user_update uid f d) = sessions d"
  by (simp add: user_update_def)

lemma sessions_fold_user_update:
  "sessions (fold (\<lambda>uid. user_update uid f) vts d) = sessions d"
  by (induction vts arbitrary: d) simp_all

lemma users_fold_bulk_step:
  "users (fold (bulk_step now act actor n) vts d) = users d"
  by (induction vts arbitrary: d)
     (simp_all add: bulk_step_def Let_def adminLog_create_def session_deleteMany_def)

lemma sessions_fold_bulk_step_ban:
  "sessions (fold (bulk_step now ''ban'' actor n) vts d) =
   filter (\<lambda>s. session_user_id s \<notin> set vts) (sessions d)"
proof (induction vts arbitrary: d)
  case Nil
  then show ?case by simp
next
  case (Cons v vts)
  have "sessions (bulk_step now ''ban'' actor n v d) =
        filter (\<lambda>s. session_user_id s \<noteq> v) (sessions d)"
    by (simp add: bulk_step_def Let_def adminLog_create_def session_deleteMany_def)
  then show ?case by (simp add: Cons.IH conj_commute)
qed

lemma users_fold_ban:
  "users (fold (\<lambda>uid. user_update uid (updateData ''ban'')) vts d) =
   map (\<lambda>u. if user_id u \<in> set vts then u\<lparr>is_banned := True\<rparr> else u) (users d)"
proof (induction vts arbitrary: d)
  case Nil
  then show ?case by simp
next
  case (Cons v vts)
  have "users (user_update v (updateData ''ban'') d) =
        map (\<lambda>u. if user_id u = v then u\<lparr>is_banned := True\<rparr> else u) (users d)"
    by (simp add: user_update_def updateData_def)
  then show ?case by (simp add: Cons.IH comp_def cong: map_cong)
qed

lemma bulk_transaction_ban_sessions:
  "sessions (bulk_transaction now ''ban'' actor vts d) =
   filter (\<lambda>s. session_user_id s \<notin> set vts) (sessions d)"
  by (simp add: bulk_transaction_def sessions_fold_user_update sessions_fold_bulk_step_ban)

lemma bulk_transaction_ban_users:
  "users (bulk_transaction now ''ban'' actor vts d) =
   map (\<lambda>u. if user_id u \<in> set vts then u\<lparr>is_banned := True\<rparr> else u) (users d)"
  by (simp add: bulk_transaction_def users_fold_ban users_fold_bulk_step)

lemma find_SomeD': "find P xs = Some x \<Longrightarrow> P x \<and> x \<in> set xs"
  by (auto simp: find_Some_iff)

lemma ban_POST_success:
  assumes "ban_POST now cookie target d = (Success (), d1)"
  shows "\<exists>uid. target = Some uid
      \<and> sessions d1 = filter (\<lambda>s. session_user_id s \<noteq> uid) (sessions d)
      \<and> users d1 = map (\<lambda>u. if user_id u = uid then u\<lparr>is_banned := True\<rparr> else u) (users d)"
proof (cases "verify_session d now cookie")
  case (Inl e)
  with assms show ?thesis by (cases e) (simp add: ban_POST_def)
next
  case (Inr uo)
  show ?thesis
  proof (cases uo)
    case None
    with Inr assms show ?thesis by (simp add: ban_POST_def)
  next
    case (Some admin)
    show ?thesis
    proof (cases target)
      case None
      with Inr Some assms show ?thesis by (simp add: ban_POST_def split: if_splits)
    next
      case (Some uid)
      show ?thesis
      proof (cases "user_findUnique d uid")
        case None
        with Inr \<open>uo = Some admin\<close> Some assms show ?thesis
          by (simp add: ban_POST_def split: if_splits)
      next
        case (Some targetUser)
        with Inr \<open>uo = Some admin\<close> \<open>target = Some uid\<close> assms
        have "d1 = adminLog_create
                    \<lparr>admin_id = user_id admin, action = ''BAN_USER'', target_id = Some uid,
                     details = None\<rparr>
                    (session_deleteMany uid (user_update uid (\<lambda>u. u\<lparr>is_banned := True\<rparr>) d))"
          by (simp add: ban_POST_def split: if_splits)
        then show ?thesis using \<open>target = Some uid\<close>
          by (simp add: adminLog_create_def session_deleteMany_def user_update_def)
      qed
    qed
  qed
qed

lemma bulk_action_POST_ban_success:
  assumes "bulk_action_POST now cookie \<lparr>bulk_action = ''ban'', user_ids = ids\<rparr> d = (Success r, d2)"
  shows "\<exists>actor. d2 = bulk_transaction now ''ban'' actor
           (fst (validate_targets ''ban'' actor (filter (\<lambda>u. user_id u \<in> set ids) (users d)))) d"
proof (cases "verify_session d now cookie")
  case (Inl e)
  with assms show ?thesis by (cases e) (simp add: bulk_action_POST_def)
next
  case (Inr uo)
  show ?thesis
  proof (cases uo)
    case None
    with Inr assms show ?thesis by (simp add: bulk_action_POST_def)
  next
    case (Some actor)
    with Inr assms
    have "d2 = bulk_transaction now ''ban'' actor
           (fst (validate_targets ''ban'' actor (filter (\<lambda>u. user_id u \<in> set ids) (users d)))) d"
      by (simp add: bulk_action_POST_def Let_def case_prod_beta split: if_splits)
    then show ?thesis ..
  qed
qed

lemma banned_after_map:
  assumes "u \<in> set (map (\<lambda>u. if user_id u \<in> S then u\<lparr>is_banned := True\<rparr> else u) us)"
    and "user_id u \<in> S"
  shows "is_banned u"
  using assms by (induction us) (auto split: if_splits)

lemma no_session_after_filter:
  assumes "uid \<in> S"
  shows "filter (\<lambda>s. session_user_id s = uid) (filter (\<lambda>s. session_user_id s \<notin> S) ss) = []"
  using assms by (induction ss) auto

text \<open>
  Claim C10. When the single ban route answers with success, the request has removed every
  session of the banned account and set its ban flag. When the bulk route answers a
  \<open>ban\<close> action with success, the same holds of every listed account that exists and is
  not an owner (the accounts the route accepts as valid targets).
\<close>

theorem ban_deletes_sessions:
  "(ban_POST now cookie target d = (Success (), d1) \<longrightarrow>
      (\<exists>uid. target = Some uid
         \<and> filter (\<lambda>s. session_user_id s = uid) (sessions d1) = []
         \<and> (\<forall>u \<in> set (users d1). user_id u = uid \<longrightarrow> is_banned u)))
   \<and> (bulk_action_POST now cookie \<lparr>bulk_action = ''ban'', user_ids = ids\<rparr> d = (Success r, d2)
        \<and> uid \<in> set ids \<and> user_findUnique d uid = Some t \<and> role t \<noteq> ''OWNER'' \<longrightarrow>
      filter (\<lambda>s. session_user_id s = uid) (sessions d2) = []
      \<and> (\<forall>u \<in> set (users d2). user_id u = uid \<longrightarrow> is_banned u))"
proof (rule conjI; rule impI)
  assume "ban_POST now cookie target d = (Success (), d1)"
  from ban_POST_success [OF this]
  obtain x where t: "target = Some x"
    and s1: "sessions d1 = filter (\<lambda>s. session_user_id s \<noteq> x) (sessions d)"
    and u1: "users d1 = map (\<lambda>u. if user_id u = x then u\<lparr>is_banned := True\<rparr> else u) (users d)"
    by (elim exE conjE)
  have s: "filter (\<lambda>s. session_user_id s = x) (sessions d1) = []"
    unfolding s1 using no_session_after_filter [of x "{x}" "sessions d"] by simp
  have b: "\<forall>u \<in> set (users d1). user_id u = x \<longrightarrow> is_banned u"
  proof (intro ballI impI)
    fix u assume "u \<in> set (users d1)" and "user_id u = x"
    then show "is_banned u"
      using banned_after_map [of u "{x}" "users d"] unfolding u1 by simp
  qed
  show "\<exists>uid. target = Some uid
         \<and> filter (\<lambda>s. session_user_id s = uid) (sessions d1) = []
         \<and> (\<forall>u \<in> set (users d1). user_id u = uid \<longrightarrow> is_banned u)"
    by (intro exI conjI) (rule t s b)+
next
  assume h: "bulk_action_POST now cookie \<lparr>bulk_action = ''ban'', user_ids = ids\<rparr> d = (Success r, d2)
        \<and> uid \<in> set ids \<and> user_findUnique d uid = Some t \<and> role t \<noteq> ''OWNER''"
  let ?targets = "filter (\<lambda>u. user_id u \<in> set ids) (users d)"
  let ?vts = "map user_id (filter (\<lambda>u. role u \<noteq> ''OWNER'') ?targets)"
  from h have ok: "bulk_action_POST now cookie \<lparr>bulk_action = ''ban'', user_ids = ids\<rparr> d =
                   (Success r, d2)"
    and uid: "uid \<in> set ids" and t: "user_findUnique d uid = Some t" and role: "role t \<noteq> ''OWNER''"
    by simp_all
  from bulk_action_POST_ban_success [OF ok] obtain actor where
    "d2 = bulk_transaction now ''ban'' actor (fst (validate_targets ''ban'' actor ?targets)) d" ..
  then have d2: "d2 = bulk_transaction now ''ban'' actor ?vts d"
    by (simp only: validate_targets_ban)
  from t have tt: "user_id t = uid \<and> t \<in> set (users d)"
    unfolding user_findUnique_def by (rule find_SomeD')
  with uid role have "t \<in> set (filter (\<lambda>u. role u \<noteq> ''OWNER'') ?targets)"
    by simp
  then have "user_id t \<in> user_id ` set (filter (\<lambda>u. role u \<noteq> ''OWNER'') ?targets)"
    by (rule imageI)
  then have v: "uid \<in> set ?vts" using tt by (simp only: set_map)
  have s: "filter (\<lambda>s. session_user_id s = uid) (sessions d2) = []"
    unfolding d2 bulk_transaction_ban_sessions by (rule no_session_after_filter [OF v])
  have b: "\<forall>u \<in> set (users d2). user_id u = uid \<longrightarrow> is_banned u"
  proof (intro ballI impI)
    fix u assume "u \<in> set (users d2)" and "user_id u = uid"
    then show "is_banned u"
      using banned_after_map [of u "set ?vts" "users d"] v
      unfolding d2 bulk_transaction_ban_users by blast
  qed
  from s b show "filter (\<lambda>s. session_user_id s = uid) (sessions d2) = []
      \<and> (\<forall>u \<in> set (users d2). user_id u = uid \<longrightarrow> is_banned u)" ..
qed


theorem ban_deletes_sessions_witness:
  "(\<exists>d1. ban_POST 0 (Some ''tok1'') (Some 2) example_db = (Success (), d1)
          \<and> filter (\<lambda>s. session_user_id s = 2) (sessions d1) = []
          \<and> (\<forall>u \<in> set (users d1). user_id u = 2 \<longrightarrow> is_banned u))
   \<and> (\<exists>r d2. bulk_action_POST 0 (Some ''tok1'') \<lparr>bulk_action = ''ban'', user_ids = [1, 2, 3]\<rparr>
                 example_db = (Success r, d2)
          \<and> (2::nat) \<in> set [1, 2, 3] \<and> user_findUnique example_db 2 = Some example_player
          \<and> role example_player \<noteq> ''OWNER''
          \<and> filter (\<lambda>s. session_user_id s = 2) (sessions d2) = []
          \<and> (\<forall>u \<in> set (users d2). user_id u = 2 \<longrightarrow> is_banned u))"
proof (rule conjI)
  define d1 where "d1 = snd (ban_POST 0 (Some ''tok1'') (Some 2) example_db)"
  have "fst (ban_POST 0 (Some ''tok1'') (Some 2) example_db) = Success ()"
    by (simp add: ban_POST_def verify_session_def user_findUnique_def example_defs)
  then have ok: "ban_POST 0 (Some ''tok1'') (Some 2) example_db = (Success (), d1)"
    unfolding d1_def by (metis prod.collapse)
  from ban_deletes_sessions [where now = 0 and cookie = "Some ''tok1''" and target = "Some 2"
      and d = example_db and ?d1.0 = d1, THEN conjunct1, THEN mp, OF ok]
  have "filter (\<lambda>s. session_user_id s = 2) (sessions d1) = []
        \<and> (\<forall>u \<in> set (users d1). user_id u = 2 \<longrightarrow> is_banned u)"
    by simp
  with ok show "\<exists>d1. ban_POST 0 (Some ''tok1'') (Some 2) example_db = (Success (), d1)
          \<and> filter (\<lambda>s. session_user_id s = 2) (sessions d1) = []
          \<and> (\<forall>u \<in> set (users d1). user_id u = 2 \<longrightarrow> is_banned u)"
    by (intro exI [of _ d1]) simp
next
  let ?rq = "\<lparr>bulk_action = ''ban'', user_ids = [1, 2, 3]\<rparr>"
  define r where "r = \<lparr>processed = 1, valid_targets = 1,
                        invalid_targets = [(1, ''Cannot modify owner account'')],
                        result_action = ''ban''\<rparr>"
  define d2 where "d2 = snd (bulk_action_POST 0 (Some ''tok1'') ?rq example_db)"
  have "fst (bulk_action_POST 0 (Some ''tok1'') ?rq example_db) = Success r"
    by (simp add: bulk_action_POST_def verify_session_def user_findUnique_def example_defs r_def
        Let_def)
  then have ok: "bulk_action_POST 0 (Some ''tok1'') ?rq example_db = (Success r, d2)"
    unfolding d2_def by (metis prod.collapse)
  have hyp: "bulk_action_POST 0 (Some ''tok1'') ?rq example_db = (Success r, d2)
        \<and> (2::nat) \<in> set [1, 2, 3] \<and> user_findUnique example_db 2 = Some example_player
        \<and> role example_player \<noteq> ''OWNER''"
    using ok by (simp add: user_findUnique_def example_defs)
  from ban_deletes_sessions [where now = 0 and cookie = "Some ''tok1''" and ids = "[1, 2, 3]"
      and d = example_db and ?d2.0 = d2 and r = r and uid = 2 and t = example_player,
      THEN conjunct2, THEN mp, OF hyp] hyp
  show "\<exists>r d2. bulk_action_POST 0 (Some ''tok1'') ?rq example_db = (Success r, d2)
          \<and> (2::nat) \<in> set [1, 2, 3] \<and> user_findUnique example_db 2 = Some example_player
          \<and> role example_player \<noteq> ''OWNER''
          \<and> filter (\<lambda>s. session_user_id s = 2) (sessions d2) = []
          \<and> (\<forall>u \<in> set (users d2). user_id u = 2 \<longrightarrow> is_banned u)"
    by (intro exI [of _ r] exI [of _ d2]) simp
qed

subsection \<open>Plinko drop\<close>

lemma verify_session_user:
  assumes "verify_session d now cookie = Inr (Some u)"
  shows "user_findUnique d (user_id u) = Some u"
proof -
  from assms have "\<exists>s::session. user_findUnique d (session_user_id s) = Some u"
    by (simp add: verify_session_def split: option.splits if_splits) blast
  then obtain s :: session where s: "user_findUnique d (session_user_id s) = Some u" ..
  then have "user_id u = session_user_id s"
    unfolding user_findUnique_def by (rule find_SomeD)
  with s show ?thesis by simp
qed

lemma plinko_drop_POST_success:
  assumes "plinko_drop_POST now cookie uuid rq d = (Success res, d')"
  shows "\<exists>u m p. verify_session d now cookie = Inr (Some u) \<and> \<not> is_banned u
           \<and> 1 \<le> drop_amount rq \<and> drop_amount rq \<le> 100000
           \<and> of_int \<lfloor>drop_amount rq\<rfloor> = drop_amount rq \<and> \<lfloor>drop_amount rq\<rfloor> \<le> gems u
           \<and> drop_multiplier rq = Fin m
           \<and> p = \<lfloor>drop_amount rq * m\<rfloor> - \<lfloor>drop_amount rq\<rfloor>
           \<and> res = \<lparr>drop_winnings = Fin (of_int \<lfloor>drop_amount rq * m\<rfloor>),
                     drop_new_balance = gems u + p\<rparr>
           \<and> d' = bet_create
                      \<lparr>bet_id = uuid, bet_user_id = user_id u, game = ''plinko'',
                       amount = \<lfloor>drop_amount rq\<rfloor>,
                       outcome = [(''rows'', drop_rows rq), (''risk'', drop_risk rq),
                                  (''slot'', drop_slot rq), (''multiplier'', JNum (Fin m))],
                       profit = p\<rparr>
                      (user_update (user_id u) (\<lambda>x. x\<lparr>gems := gems u + p\<rparr>) d)"
proof (cases "verify_session d now cookie")
  case (Inl e)
  with assms show ?thesis by (cases e) (simp add: plinko_drop_POST_def)
next
  case (Inr uo)
  show ?thesis
  proof (cases uo)
    case None
    with Inr assms show ?thesis by (simp add: plinko_drop_POST_def)
  next
    case (Some u)
    note auth = Inr [unfolded Some]
    from assms auth have nb: "\<not> is_banned u" and lo: "1 \<le> drop_amount rq"
      and hi: "drop_amount rq \<le> 100000"
      by (auto simp: plinko_drop_POST_def split: if_splits)
    show ?thesis
    proof (cases "of_int \<lfloor>drop_amount rq\<rfloor> = drop_amount rq")
      case False
      with assms auth nb lo hi show ?thesis
        by (simp add: plinko_drop_POST_def del: of_int_floor_cancel)
    next
      case int: True
      from assms auth nb lo hi int have enough: "\<lfloor>drop_amount rq\<rfloor> \<le> gems u"
        by (simp add: plinko_drop_POST_def del: of_int_floor_cancel split: if_splits)
      show ?thesis
      proof (cases "drop_multiplier rq")
        case (Fin m)
        have "of_int \<lfloor>drop_amount rq * m\<rfloor> - drop_amount rq =
              (of_int (\<lfloor>drop_amount rq * m\<rfloor> - \<lfloor>drop_amount rq\<rfloor>) :: rat)"
          by (simp only: of_int_diff int)
        then have "BigInt (js_sub (js_floor (js_mul (Fin (drop_amount rq)) (Fin m)))
                     (Fin (drop_amount rq))) = Some (\<lfloor>drop_amount rq * m\<rfloor> - \<lfloor>drop_amount rq\<rfloor>)"
          by (simp del: of_int_diff)
        with assms auth nb lo hi int enough Fin show ?thesis
          by (simp add: plinko_drop_POST_def Let_def del: of_int_diff of_int_floor_cancel)
      next
        case PosInf
        with assms auth nb lo hi int enough show ?thesis
          by (simp add: plinko_drop_POST_def Let_def del: of_int_floor_cancel)
      next
        case NegInf
        with assms auth nb lo hi int enough show ?thesis
          by (simp add: plinko_drop_POST_def Let_def del: of_int_floor_cancel)
      next
        case NaN
        with assms auth nb lo hi int enough show ?thesis
          by (simp add: plinko_drop_POST_def Let_def del: of_int_floor_cancel)
      qed
    qed
  qed
qed







subsection \<open>Balance after a wager\<close>

text \<open>
  Claim C4. The player holds 100 gems and drops a ball with stake 100 and multiplier -1.
  The stake passes the balance check, the route computes winnings -100 and profit -200,
  and the account is left with -100 gems.
\<close>

theorem plinko_drop_negative_balance:
  "fst (plinko_drop_POST 0 (Some ''tok2'') ''u1''
          \<lparr>drop_amount = 100, drop_rows = JNum (Fin 12), drop_risk = JStr ''low'',
           drop_slot = JNum (Fin 4), drop_multiplier = Fin (- 1)\<rparr> example_db) =
     Success \<lparr>drop_winnings = Fin (- 100), drop_new_balance = - 100\<rparr>
   \<and> map_option gems (user_findUnique example_db 2) = Some 100
   \<and> map_option gems
        (user_findUnique
           (snd (plinko_drop_POST 0 (Some ''tok2'') ''u1''
                   \<lparr>drop_amount = 100, drop_rows = JNum (Fin 12), drop_risk = JStr ''low'',
                    drop_slot = JNum (Fin 4), drop_multiplier = Fin (- 1)\<rparr> example_db)) 2) =
       Some (- 100)"
  by (simp add: plinko_drop_POST_def verify_session_def user_findUnique_def user_update_def
      bet_create_def example_defs Let_def)

text \<open>What a game route can do to the tables: nothing, or credit one user and touch bets.\<close>

lemma plinko_drop_POST_state:
  assumes "plinko_drop_POST now cookie uuid rq d = (r, d')"
  shows "d' = d \<or>
         (\<exists>u m. verify_session d now cookie = Inr (Some u) \<and> drop_multiplier rq = Fin m
            \<and> 1 \<le> drop_amount rq \<and> \<lfloor>drop_amount rq\<rfloor> \<le> gems u
            \<and> users d' = map (\<lambda>x. if user_id x = user_id u
                     then x\<lparr>gems := gems u + (\<lfloor>drop_amount rq * m\<rfloor> - \<lfloor>drop_amount rq\<rfloor>)\<rparr>
                     else x) (users d)
            \<and> (\<exists>b. bets d' = bets d @ [b] \<and> amount b = \<lfloor>drop_amount rq\<rfloor>))"
proof (cases r)
  case (Error st msg)
  have "snd (plinko_drop_POST now cookie uuid rq d) = d
        \<or> (\<exists>x. fst (plinko_drop_POST now cookie uuid rq d) = Success x)"
    by (simp add: plinko_drop_POST_def Let_def del: of_int_floor_cancel
        split: sum.splits option.splits prod.splits)
  with assms Error show ?thesis by auto
next
  case (Success res)
  from plinko_drop_POST_success [OF assms [unfolded Success]] obtain u m p where
    "verify_session d now cookie = Inr (Some u)" "drop_multiplier rq = Fin m"
    "1 \<le> drop_amount rq" "\<lfloor>drop_amount rq\<rfloor> \<le> gems u"
    "p = \<lfloor>drop_amount rq * m\<rfloor> - \<lfloor>drop_amount rq\<rfloor>"
    "d' = bet_create
                      \<lparr>bet_id = uuid, bet_user_id = user_id u, game = ''plinko'',
                       amount = \<lfloor>drop_amount rq\<rfloor>,
                       outcome = [(''rows'', drop_rows rq), (''risk'', drop_risk rq),
                                  (''slot'', drop_slot rq), (''multiplier'', JNum (Fin m))],
                       profit = p\<rparr>
                      (user_update (user_id u) (\<lambda>x. x\<lparr>gems := gems u + p\<rparr>) d)"
    by (elim exE conjE)
  then show ?thesis
    by (intro disjI2 exI [of _ u] exI [of _ m]) (simp add: bet_create_def user_update_def)
qed


lemma BigInt_SomeD: "BigInt x = Some z \<Longrightarrow> x = Fin (of_int z)"
  by (cases x) (auto simp del: of_int_floor_cancel split: if_splits)

lemma mines_bet_POST_state:
  assumes "mines_bet_POST now cookie uuid rq d = (r, d')"
  shows "d' = d \<or>
         (\<exists>u. verify_session d now cookie = Inr (Some u)
            \<and> 1 \<le> mines_amount rq \<and> \<lfloor>mines_amount rq\<rfloor> \<le> gems u
            \<and> users d' = map (\<lambda>x. if user_id x = user_id u
                     then x\<lparr>gems := gems u - \<lfloor>mines_amount rq\<rfloor>\<rparr> else x) (users d)
            \<and> (\<exists>b. bets d' = bets d @ [b] \<and> amount b = \<lfloor>mines_amount rq\<rfloor>))"
proof (cases "verify_session d now cookie")
  case (Inl e)
  with assms show ?thesis by (cases e) (simp add: mines_bet_POST_def)
next
  case (Inr uo)
  show ?thesis
  proof (cases uo)
    case None
    with Inr assms show ?thesis by (simp add: mines_bet_POST_def)
  next
    case (Some u)
    note auth = Inr [unfolded Some]
    show ?thesis
    proof (cases "BigInt (Fin (mines_amount rq))")
      case None
      with assms auth show ?thesis
        by (simp add: mines_bet_POST_def del: BigInt.simps split: if_splits)
    next
      case (Some stake)
      then have stake: "stake = \<lfloor>mines_amount rq\<rfloor>"
        by (simp del: of_int_floor_cancel split: if_splits)
      from assms auth Some have
        "d' = d \<or> (1 \<le> mines_amount rq \<and> stake \<le> gems u
           \<and> d' = bet_create
                         \<lparr>bet_id = uuid, bet_user_id = user_id u, game = ''mines'',
                          amount = stake,
                          outcome = [(''grid_size'', grid_size rq), (''mines_count'', mines_count rq),
                                     (''server_seed'', server_seed rq),
                                     (''client_nonce'', client_nonce rq),
                                     (''status'', JStr ''active'')],
                          profit = - stake\<rparr>
                         (user_update (user_id u) (\<lambda>x. x\<lparr>gems := gems u - stake\<rparr>) d))"
        by (simp add: mines_bet_POST_def del: BigInt.simps split: if_splits)
      then show ?thesis
      proof
        assume "d' = d" then show ?thesis ..
      next
        assume h: "1 \<le> mines_amount rq \<and> stake \<le> gems u
           \<and> d' = bet_create
                         \<lparr>bet_id = uuid, bet_user_id = user_id u, game = ''mines'',
                          amount = stake,
                          outcome = [(''grid_size'', grid_size rq), (''mines_count'', mines_count rq),
                                     (''server_seed'', server_seed rq),
                                     (''client_nonce'', client_nonce rq),
                                     (''status'', JStr ''active'')],
                          profit = - stake\<rparr>
                         (user_update (user_id u) (\<lambda>x. x\<lparr>gems := gems u - stake\<rparr>) d)"
        show ?thesis
          by (intro disjI2 exI [of _ u])
             (use h auth stake in \<open>simp add: bet_create_def user_update_def\<close>)
      qed
    qed
  qed
qed

lemma cashout_state:
  assumes "verify_session d now cookie = Inr (Some u)"
    and "\<And>b. found = Some b \<Longrightarrow> b \<in> set (bets d)"
    and "(case found of
            None \<Rightarrow> (Error 404 ''Bet not found'', d)
          | Some b \<Rightarrow>
              if reject b then (err b, d)
              else (let winnings = js_floor (js_mul (Fin (of_int (amount b))) mlt)
                    in case BigInt winnings of
                         None \<Rightarrow> (Error 500 ''Internal server error'', d)
                       | Some w \<Rightarrow>
                           (Success \<lparr>cashout_winnings = w, cashout_new_balance = gems u + w\<rparr>,
                            bet_update (key b) (f b w)
                              (user_update (user_id u) (\<lambda>x. x\<lparr>gems := gems u + w\<rparr>) d)))) = (r, d')"
    and "\<And>b w x. amount (f b w x) = amount x"
  shows "d' = d \<or>
         (\<exists>b w. b \<in> set (bets d)
            \<and> js_floor (js_mul (Fin (of_int (amount b))) mlt) = Fin (of_int w)
            \<and> users d' = map (\<lambda>x. if user_id x = user_id u then x\<lparr>gems := gems u + w\<rparr> else x)
                            (users d)
            \<and> map amount (bets d') = map amount (bets d))"
proof (cases found)
  case None
  with assms(3) show ?thesis by simp
next
  case (Some b)
  show ?thesis
  proof (cases "reject b")
    case True
    with Some assms(3) show ?thesis by simp
  next
    case False
    show ?thesis
    proof (cases "BigInt (js_floor (js_mul (Fin (of_int (amount b))) mlt))")
      case None
      with Some False assms(3) show ?thesis by (simp add: Let_def)
    next
      case w: (Some w)
      with Some False assms(3)
      have d': "d' = bet_update (key b) (f b w)
                       (user_update (user_id u) (\<lambda>x. x\<lparr>gems := gems u + w\<rparr>) d)"
        by (simp add: Let_def)
      have "map amount (bets d') = map amount (bets d)"
        by (simp add: d' bet_update_def user_update_def assms(4) comp_def cong: map_cong)
      moreover have "users d' = map (\<lambda>x. if user_id x = user_id u then x\<lparr>gems := gems u + w\<rparr> else x)
                            (users d)"
        by (simp add: d' bet_update_def user_update_def)
      moreover have "b \<in> set (bets d)" using Some by (rule assms(2))
      ultimately show ?thesis using BigInt_SomeD [OF w] by blast
    qed
  qed
qed


lemma mines_cashout_POST_state:
  assumes "mines_cashout_POST now cookie rq d = (r, d')"
  shows "d' = d \<or>
         (\<exists>u b w. verify_session d now cookie = Inr (Some u) \<and> b \<in> set (bets d)
            \<and> js_floor (js_mul (Fin (of_int (amount b))) (cashout_multiplier rq)) = Fin (of_int w)
            \<and> users d' = map (\<lambda>x. if user_id x = user_id u then x\<lparr>gems := gems u + w\<rparr> else x)
                            (users d)
            \<and> map amount (bets d') = map amount (bets d))"
proof (cases "verify_session d now cookie")
  case (Inl e)
  with assms show ?thesis by (cases e) (simp add: mines_cashout_POST_def)
next
  case (Inr uo)
  show ?thesis
  proof (cases uo)
    case None
    with Inr assms show ?thesis by (simp add: mines_cashout_POST_def)
  next
    case (Some u)
    note auth = Inr [unfolded Some]
    show ?thesis
    proof (cases "is_banned u")
      case True
      with assms auth show ?thesis by (simp add: mines_cashout_POST_def)
    next
      case False
      have "d' = d \<or>
         (\<exists>b w. b \<in> set (bets d)
            \<and> js_floor (js_mul (Fin (of_int (amount b))) (cashout_multiplier rq)) = Fin (of_int w)
            \<and> users d' = map (\<lambda>x. if user_id x = user_id u then x\<lparr>gems := gems u + w\<rparr> else x)
                            (users d)
            \<and> map amount (bets d') = map amount (bets d))"
      proof (rule cashout_state [OF auth, where found = "bet_findUnique d (cashout_bet_id rq)"
            and reject = "\<lambda>b. bet_user_id b \<noteq> user_id u
                            \<or> map_of (outcome b) ''status'' \<noteq> Some (JStr ''active'')"
            and err = "\<lambda>b. if bet_user_id b \<noteq> user_id u then Error 404 ''Bet not found''
                           else Error 400 ''Bet already completed''"
            and key = "\<lambda>b. cashout_bet_id rq"
            and f = "\<lambda>b w r. r\<lparr>outcome :=
                                  AList.update ''cells_revealed'' (cells_revealed rq)
                                    (AList.update ''multiplier'' (JNum (cashout_multiplier rq))
                                       (AList.update ''status'' (JStr ''won'') (outcome b))),
                                profit := w - amount b\<rparr>"])
        fix b assume "bet_findUnique d (cashout_bet_id rq) = Some b"
        then show "b \<in> set (bets d)" unfolding bet_findUnique_def by (auto dest: find_SomeD')
      next
        from assms auth False
        show "(case bet_findUnique d (cashout_bet_id rq) of
            None \<Rightarrow> (Error 404 ''Bet not found'', d)
          | Some b \<Rightarrow>
              if bet_user_id b \<noteq> user_id u
                   \<or> map_of (outcome b) ''status'' \<noteq> Some (JStr ''active'')
              then (if bet_user_id b \<noteq> user_id u then Error 404 ''Bet not found''
                    else Error 400 ''Bet already completed'', d)
              else (let winnings = js_floor (js_mul (Fin (of_int (amount b))) (cashout_multiplier rq))
                    in case BigInt winnings of
                         None \<Rightarrow> (Error 500 ''Internal server error'', d)
                       | Some w \<Rightarrow>
                           (Success \<lparr>cashout_winnings = w, cashout_new_balance = gems u + w\<rparr>,
                            bet_update (cashout_bet_id rq)
                              (\<lambda>r. r\<lparr>outcome :=
                                  AList.update ''cells_revealed'' (cells_revealed rq)
                                    (AList.update ''multiplier'' (JNum (cashout_multiplier rq))
                                       (AList.update ''status'' (JStr ''won'') (outcome b))),
                                profit := w - amount b\<rparr>)
                              (user_update (user_id u) (\<lambda>x. x\<lparr>gems := gems u + w\<rparr>) d)))) = (r, d')"
          by (cases "bet_findUnique d (cashout_bet_id rq)") (simp_all add: mines_cashout_POST_def split: if_splits)
      qed simp
      with auth show ?thesis by blast
    qed
  qed
qed

lemma crash_cashout_POST_state:
  assumes "crash_cashout_POST now cookie rq d = (r, d')"
  shows "d' = d \<or>
         (\<exists>u b w. verify_session d now cookie = Inr (Some u) \<and> b \<in> set (bets d)
            \<and> js_floor (js_mul (Fin (of_int (amount b))) (crash_multiplier rq)) = Fin (of_int w)
            \<and> users d' = map (\<lambda>x. if user_id x = user_id u then x\<lparr>gems := gems u + w\<rparr> else x)
                            (users d)
            \<and> map amount (bets d') = map amount (bets d))"
proof (cases "verify_session d now cookie")
  case (Inl e)
  with assms show ?thesis by (cases e) (simp add: crash_cashout_POST_def)
next
  case (Inr uo)
  show ?thesis
  proof (cases uo)
    case None
    with Inr assms show ?thesis by (simp add: crash_cashout_POST_def)
  next
    case (Some u)
    note auth = Inr [unfolded Some]
    show ?thesis
    proof (cases "is_banned u")
      case True
      with assms auth show ?thesis by (simp add: crash_cashout_POST_def)
    next
      case False
      let ?found = "find (\<lambda>b. bet_user_id b = user_id u \<and> game b = ''crash''
                               \<and> map_of (outcome b) ''round_id'' = Some (cashout_round_id rq))
                       (bets d)"
      have "d' = d \<or>
         (\<exists>b w. b \<in> set (bets d)
            \<and> js_floor (js_mul (Fin (of_int (amount b))) (crash_multiplier rq)) = Fin (of_int w)
            \<and> users d' = map (\<lambda>x. if user_id x = user_id u then x\<lparr>gems := gems u + w\<rparr> else x)
                            (users d)
            \<and> map amount (bets d') = map amount (bets d))"
      proof (rule cashout_state [OF auth, where found = ?found
            and reject = "\<lambda>b. map_of (outcome b) ''status'' \<noteq> Some (JStr ''active'')"
            and err = "\<lambda>b. Error 400 ''Bet already cashed out''"
            and key = bet_id
            and f = "\<lambda>b w r. r\<lparr>outcome :=
                                  AList.update ''cashout_multiplier'' (JNum (crash_multiplier rq))
                                    (AList.update ''status'' (JStr ''won'') (outcome b)),
                                profit := w - amount b\<rparr>"])
        fix b assume "?found = Some b"
        then show "b \<in> set (bets d)" by (auto dest: find_SomeD')
      next
        from assms auth False
        show "(case ?found of
            None \<Rightarrow> (Error 404 ''Bet not found'', d)
          | Some b \<Rightarrow>
              if map_of (outcome b) ''status'' \<noteq> Some (JStr ''active'')
              then (Error 400 ''Bet already cashed out'', d)
              else (let winnings = js_floor (js_mul (Fin (of_int (amount b))) (crash_multiplier rq))
                    in case BigInt winnings of
                         None \<Rightarrow> (Error 500 ''Internal server error'', d)
                       | Some w \<Rightarrow>
                           (Success \<lparr>cashout_winnings = w, cashout_new_balance = gems u + w\<rparr>,
                            bet_update (bet_id b)
                              (\<lambda>r. r\<lparr>outcome :=
                                  AList.update ''cashout_multiplier'' (JNum (crash_multiplier rq))
                                    (AList.update ''status'' (JStr ''won'') (outcome b)),
                                profit := w - amount b\<rparr>)
                              (user_update (user_id u) (\<lambda>x. x\<lparr>gems := gems u + w\<rparr>) d)))) = (r, d')"
          by (simp add: crash_cashout_POST_def)
      qed simp
      with auth show ?thesis by blast
    qed
  qed
qed


lemma verify_session_member:
  assumes "verify_session d now cookie = Inr (Some u)"
  shows "u \<in> set (users d)"
  using verify_session_user [OF assms] unfolding user_findUnique_def
  by (auto dest: find_SomeD')

lemma floor_mul_nonneg:
  assumes "js_floor (js_mul (Fin (of_int a)) mlt) = Fin (of_int w)"
    and "0 \<le> a" and "\<forall>m. mlt = Fin m \<longrightarrow> 0 \<le> m"
  shows "0 \<le> w"
proof (cases mlt)
  case (Fin m)
  with assms(3) have "0 \<le> m" by simp
  with assms(2) have "0 \<le> \<lfloor>of_int a * m\<rfloor>" by simp
  moreover from assms(1) Fin have "w = \<lfloor>of_int a * m\<rfloor>" by simp
  ultimately show ?thesis by simp
qed (use assms(1) in \<open>simp_all split: if_splits\<close>)

lemma credit_keeps_balances:
  assumes inv: "\<forall>x\<in>set (users d). 0 \<le> gems x" and "0 \<le> g"
    and "users d' = map (\<lambda>x. if user_id x = uid then x\<lparr>gems := g\<rparr> else x) (users d)"
  shows "\<forall>x\<in>set (users d'). 0 \<le> gems x"
  using assms by auto

text \<open>
  The stake guard of the two wagering routes: a stake above the player's balance is answered
  with an error and the database is left as it was.
\<close>

theorem overdrawn_stake_rejected:
  assumes "verify_session d now cookie = Inr (Some u)"
    and "of_int (gems u) < drop_amount prq" and "of_int (gems u) < mines_amount mrq"
  shows "(\<exists>st msg. plinko_drop_POST now cookie uuid prq d = (Error st msg, d))
       \<and> (\<exists>st msg. mines_bet_POST now cookie uuid mrq d = (Error st msg, d))"
proof -
  have less: "gems u < \<lfloor>a\<rfloor>" if "of_int (gems u) < a" "of_int \<lfloor>a\<rfloor> = a" for a :: rat
    using that by (metis of_int_less_iff)
  have "\<exists>st msg. plinko_drop_POST now cookie uuid prq d = (Error st msg, d)"
    using assms(1) less [OF assms(2)]
    by (simp add: plinko_drop_POST_def del: of_int_floor_cancel)
  moreover have "\<exists>st msg. mines_bet_POST now cookie uuid mrq d = (Error st msg, d)"
    using assms(1) less [OF assms(3)]
    by (simp add: mines_bet_POST_def del: of_int_floor_cancel)
  ultimately show ?thesis ..
qed

theorem overdrawn_stake_rejected_witness:
  "verify_session example_db 0 (Some ''tok2'') = Inr (Some example_player)
   \<and> gems example_player = 100
   \<and> plinko_drop_POST 0 (Some ''tok2'') ''u1''
        \<lparr>drop_amount = 150, drop_rows = JNum (Fin 12), drop_risk = JStr ''low'',
         drop_slot = JNum (Fin 4), drop_multiplier = Fin 2\<rparr> example_db =
       (Error 400 ''Insufficient gems'', example_db)
   \<and> mines_bet_POST 0 (Some ''tok2'') ''u1''
        \<lparr>mines_amount = 150, grid_size = JNum (Fin 5), mines_count = JNum (Fin 5),
         server_seed = JStr ''s'', client_nonce = JNum (Fin 0)\<rparr> example_db =
       (Error 400 ''Insufficient gems'', example_db)"
proof -
  let ?prq = "\<lparr>drop_amount = 150, drop_rows = JNum (Fin 12), drop_risk = JStr ''low'',
         drop_slot = JNum (Fin 4), drop_multiplier = Fin 2\<rparr>"
  let ?mrq = "\<lparr>mines_amount = 150, grid_size = JNum (Fin 5), mines_count = JNum (Fin 5),
         server_seed = JStr ''s'', client_nonce = JNum (Fin 0)\<rparr>"
  have auth: "verify_session example_db 0 (Some ''tok2'') = Inr (Some example_player)"
    by (simp add: verify_session_def user_findUnique_def example_defs)
  have g: "gems example_player = 100" by (simp add: example_defs)
  have nb: "\<not> is_banned example_player" by (simp add: example_defs)
  have "(\<exists>st msg. plinko_drop_POST 0 (Some ''tok2'') ''u1'' ?prq example_db
                    = (Error st msg, example_db))
      \<and> (\<exists>st msg. mines_bet_POST 0 (Some ''tok2'') ''u1'' ?mrq example_db
                    = (Error st msg, example_db))"
    by (rule overdrawn_stake_rejected [OF auth]) (simp_all add: g)
  then have "snd (plinko_drop_POST 0 (Some ''tok2'') ''u1'' ?prq example_db) = example_db"
    and "snd (mines_bet_POST 0 (Some ''tok2'') ''u1'' ?mrq example_db) = example_db"
    by auto
  moreover have "fst (plinko_drop_POST 0 (Some ''tok2'') ''u1'' ?prq example_db)
                   = Error 400 ''Insufficient gems''"
    by (simp add: plinko_drop_POST_def auth g nb)
  moreover have "fst (mines_bet_POST 0 (Some ''tok2'') ''u1'' ?mrq example_db)
                   = Error 400 ''Insufficient gems''"
    by (simp add: mines_bet_POST_def auth g nb)
  ultimately show ?thesis using auth g by (simp add: prod_eq_iff)
qed

text \<open>
  With a multiplier that is not negative, the four settlement routes keep every balance and
  every stake non-negative; the negative multiplier above is the only way below zero.
\<close>

theorem nonnegative_multiplier_keeps_balances:
  assumes users: "\<forall>x\<in>set (users d). 0 \<le> gems x"
    and bets: "\<forall>b\<in>set (bets d). 0 \<le> amount b"
    and mlt: "\<forall>m. mlt = Fin m \<longrightarrow> 0 \<le> m"
    and d': "d' \<in> {snd (plinko_drop_POST now cookie uuid
                         \<lparr>drop_amount = a, drop_rows = rows, drop_risk = rsk, drop_slot = slot,
                          drop_multiplier = mlt\<rparr> d),
                   snd (mines_bet_POST now cookie uuid mrq d),
                   snd (mines_cashout_POST now cookie
                         \<lparr>cashout_bet_id = bid, cashout_multiplier = mlt,
                          cells_revealed = cells\<rparr> d),
                   snd (crash_cashout_POST now cookie
                         \<lparr>cashout_round_id = rid, crash_multiplier = mlt\<rparr> d)}"
  shows "(\<forall>x\<in>set (users d'). 0 \<le> gems x) \<and> (\<forall>b\<in>set (bets d'). 0 \<le> amount b)"
proof -
  let ?prq = "\<lparr>drop_amount = a, drop_rows = rows, drop_risk = rsk, drop_slot = slot,
               drop_multiplier = mlt\<rparr>"
  let ?crq = "\<lparr>cashout_bet_id = bid, cashout_multiplier = mlt, cells_revealed = cells\<rparr>"
  let ?xrq = "\<lparr>cashout_round_id = rid, crash_multiplier = mlt\<rparr>"
  have amounts: "\<forall>b\<in>set (bets e). 0 \<le> amount b"
    if "map amount (bets e) = map amount (bets d)" for e
  proof
    fix b assume "b \<in> set (bets e)"
    then have "amount b \<in> set (map amount (bets e))" by simp
    with that have "amount b \<in> set (map amount (bets d))" by simp
    with bets show "0 \<le> amount b" by auto
  qed
  have cashout: ?thesis
    if "d' = d \<or>
         (\<exists>u b w. verify_session d now cookie = Inr (Some u) \<and> b \<in> set (bets d)
            \<and> js_floor (js_mul (Fin (of_int (amount b))) mlt) = Fin (of_int w)
            \<and> users d' = map (\<lambda>x. if user_id x = user_id u then x\<lparr>gems := gems u + w\<rparr> else x)
                            (users d)
            \<and> map amount (bets d') = map amount (bets d))"
    using that
  proof
    assume "d' = d" with users bets show ?thesis by simp
  next
    assume "\<exists>u b w. verify_session d now cookie = Inr (Some u) \<and> b \<in> set (bets d)
            \<and> js_floor (js_mul (Fin (of_int (amount b))) mlt) = Fin (of_int w)
            \<and> users d' = map (\<lambda>x. if user_id x = user_id u then x\<lparr>gems := gems u + w\<rparr> else x)
                            (users d)
            \<and> map amount (bets d') = map amount (bets d)"
    then obtain u b w where auth: "verify_session d now cookie = Inr (Some u)"
      and b: "b \<in> set (bets d)"
      and w: "js_floor (js_mul (Fin (of_int (amount b))) mlt) = Fin (of_int w)"
      and us: "users d' = map (\<lambda>x. if user_id x = user_id u then x\<lparr>gems := gems u + w\<rparr> else x)
                            (users d)"
      and bs: "map amount (bets d') = map amount (bets d)"
      by (elim exE conjE)
    from b bets have "0 \<le> amount b" by simp
    then have "0 \<le> w" by (rule floor_mul_nonneg [OF w _ mlt])
    moreover from verify_session_member [OF auth] users have "0 \<le> gems u" by simp
    ultimately have "0 \<le> gems u + w" by simp
    with users have "\<forall>x\<in>set (users d'). 0 \<le> gems x" using us by (rule credit_keeps_balances)
    then show ?thesis using amounts [OF bs] ..
  qed
  from d' consider
      (plinko) "d' = snd (plinko_drop_POST now cookie uuid ?prq d)"
    | (bet) "d' = snd (mines_bet_POST now cookie uuid mrq d)"
    | (mines) "d' = snd (mines_cashout_POST now cookie ?crq d)"
    | (crash) "d' = snd (crash_cashout_POST now cookie ?xrq d)"
    by blast
  then show ?thesis
  proof cases
    case plinko
    then have "plinko_drop_POST now cookie uuid ?prq d
                 = (fst (plinko_drop_POST now cookie uuid ?prq d), d')" by simp
    note st = plinko_drop_POST_state [OF this, unfolded plinko_drop_request.select_convs]
    from st show ?thesis
    proof
      assume "d' = d" with users bets show ?thesis by simp
    next
      assume "\<exists>u m. verify_session d now cookie = Inr (Some u) \<and> mlt = Fin m
            \<and> 1 \<le> a \<and> \<lfloor>a\<rfloor> \<le> gems u
            \<and> users d' = map (\<lambda>x. if user_id x = user_id u
                     then x\<lparr>gems := gems u + (\<lfloor>a * m\<rfloor> - \<lfloor>a\<rfloor>)\<rparr>
                     else x) (users d)
            \<and> (\<exists>b. bets d' = bets d @ [b] \<and> amount b = \<lfloor>a\<rfloor>)"
      then obtain u m b where auth: "verify_session d now cookie = Inr (Some u)"
        and m: "mlt = Fin m" and lo: "1 \<le> a" and enough: "\<lfloor>a\<rfloor> \<le> gems u"
        and us: "users d' = map (\<lambda>x. if user_id x = user_id u
                     then x\<lparr>gems := gems u + (\<lfloor>a * m\<rfloor> - \<lfloor>a\<rfloor>)\<rparr> else x) (users d)"
        and bs: "bets d' = bets d @ [b]" and b: "amount b = \<lfloor>a\<rfloor>"
        by (elim exE conjE)
      from m mlt have "0 \<le> m" by simp
      with lo have "0 \<le> a * m" by simp
      then have "0 \<le> \<lfloor>a * m\<rfloor>" by (simp only: zero_le_floor)
      with enough have "0 \<le> gems u + (\<lfloor>a * m\<rfloor> - \<lfloor>a\<rfloor>)" by linarith
      with users have "\<forall>x\<in>set (users d'). 0 \<le> gems x" using us by (rule credit_keeps_balances)
      moreover from lo have "0 \<le> \<lfloor>a\<rfloor>" by simp
      with bets bs b have "\<forall>b\<in>set (bets d'). 0 \<le> amount b" by auto
      ultimately show ?thesis ..
    qed
  next
    case bet
    then have "mines_bet_POST now cookie uuid mrq d
                 = (fst (mines_bet_POST now cookie uuid mrq d), d')" by simp
    from mines_bet_POST_state [OF this] show ?thesis
    proof
      assume "d' = d" with users bets show ?thesis by simp
    next
      assume "\<exists>u. verify_session d now cookie = Inr (Some u)
            \<and> 1 \<le> mines_amount mrq \<and> \<lfloor>mines_amount mrq\<rfloor> \<le> gems u
            \<and> users d' = map (\<lambda>x. if user_id x = user_id u
                     then x\<lparr>gems := gems u - \<lfloor>mines_amount mrq\<rfloor>\<rparr> else x) (users d)
            \<and> (\<exists>b. bets d' = bets d @ [b] \<and> amount b = \<lfloor>mines_amount mrq\<rfloor>)"
      then obtain u b where auth: "verify_session d now cookie = Inr (Some u)"
        and lo: "1 \<le> mines_amount mrq" and enough: "\<lfloor>mines_amount mrq\<rfloor> \<le> gems u"
        and us: "users d' = map (\<lambda>x. if user_id x = user_id u
                     then x\<lparr>gems := gems u - \<lfloor>mines_amount mrq\<rfloor>\<rparr> else x) (users d)"
        and bs: "bets d' = bets d @ [b]" and b: "amount b = \<lfloor>mines_amount mrq\<rfloor>"
        by (elim exE conjE)
      from enough have "0 \<le> gems u - \<lfloor>mines_amount mrq\<rfloor>" by simp
      with users have "\<forall>x\<in>set (users d'). 0 \<le> gems x" using us by (rule credit_keeps_balances)
      moreover from lo have "0 \<le> \<lfloor>mines_amount mrq\<rfloor>" by simp
      with bets bs b have "\<forall>b\<in>set (bets d'). 0 \<le> amount b" by auto
      ultimately show ?thesis ..
    qed
  next
    case mines
    then have "mines_cashout_POST now cookie ?crq d
                 = (fst (mines_cashout_POST now cookie ?crq d), d')" by simp
    from mines_cashout_POST_state [OF this] show ?thesis by (intro cashout) simp
  next
    case crash
    then have "crash_cashout_POST now cookie ?xrq d
                 = (fst (crash_cashout_POST now cookie ?xrq d), d')" by simp
    from crash_cashout_POST_state [OF this] show ?thesis by (intro cashout) simp
  qed
qed


theorem nonnegative_multiplier_keeps_balances_witness:
  "map gems (users example_db) = [1000000, 100]
   \<and> map amount (bets example_db) = [100, 40]
   \<and> map gems (users (snd (crash_cashout_POST 0 (Some ''tok2'')
           \<lparr>cashout_round_id = JStr ''round_7'', crash_multiplier = Fin 2\<rparr> example_db)))
       = [1000000, 180]
   \<and> 0 \<le> gems (last (users (snd (crash_cashout_POST 0 (Some ''tok2'')
           \<lparr>cashout_round_id = JStr ''round_7'', crash_multiplier = Fin 2\<rparr> example_db))))"
proof -
  let ?d' = "snd (crash_cashout_POST 0 (Some ''tok2'')
           \<lparr>cashout_round_id = JStr ''round_7'', crash_multiplier = Fin 2\<rparr> example_db)"
  have us: "map gems (users ?d') = [1000000, 180]"
    by (simp add: crash_cashout_POST_def verify_session_def user_findUnique_def user_update_def
        bet_update_def example_defs Let_def)
  have "(\<forall>x\<in>set (users ?d'). 0 \<le> gems x) \<and> (\<forall>b\<in>set (bets ?d'). 0 \<le> amount b)"
    by (rule nonnegative_multiplier_keeps_balances [where d = example_db and mlt = "Fin 2"
          and now = 0 and cookie = "Some ''tok2''" and rid = "JStr ''round_7''"
          and uuid = "''u1''" and a = 1 and rows = JNull and rsk = JNull and slot = JNull
          and bid = "''b1''" and cells = JNull
          and mrq = "\<lparr>mines_amount = 1, grid_size = JNull, mines_count = JNull,
                        server_seed = JNull, client_nonce = JNull\<rparr>"])
       (simp_all add: example_defs)
  then have inv: "\<forall>x\<in>set (users ?d'). 0 \<le> gems x" ..
  from us have "users ?d' \<noteq> []" by auto
  then have "last (users ?d') \<in> set (users ?d')" by (rule last_in_set)
  with inv have "0 \<le> gems (last (users ?d'))" ..
  moreover have "map gems (users example_db) = [1000000, 100]"
    and "map amount (bets example_db) = [100, 40]"
    by (simp_all add: example_defs)
  ultimately show ?thesis using us by simp
qed

subsection \<open>Ownership transfer\<close>

lemma transferOwnership_cases:
  "transferOwnership now fromUserId toUserId d =
     (if isOwner d fromUserId \<and> fromUserId \<noteq> toUserId
         \<and> (\<exists>t. user_findUnique d toUserId = Some t \<and> \<not> is_banned t)
      then (True,
            adminLog_create
              \<lparr>admin_id = fromUserId, action = ''TRANSFER_OWNERSHIP'', target_id = Some toUserId,
               details = Some [(''previous_owner'', JNum (Fin (of_nat fromUserId))),
                               (''new_owner'', JNum (Fin (of_nat toUserId))),
                               (''timestamp'', JNum (Fin (of_int now)))]\<rparr>
              (user_update toUserId
                 (\<lambda>u. u\<lparr>role := ''OWNER'',
                         gems := gems (the (user_findUnique d toUserId)) + 1000000,
                         level := max (level (the (user_findUnique d toUserId))) 100,
                         crystals := crystals (the (user_findUnique d toUserId)) + 10000\<rparr>)
                 (user_update fromUserId (\<lambda>u. u\<lparr>role := ''ADMIN''\<rparr>) d)))
      else (False, d))"
  by (auto simp: transferOwnership_def OWNER_CONFIG_def split: option.splits)

text \<open>
  Claim C5, as amended. \<open>transferOwnership\<close> succeeds exactly when the caller is the
  current owner (the owner row with the least identifier), the target is another account,
  exists and is not banned. On success the caller's role becomes \<open>ADMIN\<close>, the target's
  role becomes \<open>OWNER\<close> with 1,000,000 gems and 10,000 crystals added and its level raised
  to at least 100, a log entry naming both accounts is appended, and nothing else changes;
  on failure nothing changes at all. When the caller is the only account holding the
  owner role, the target did not hold it before and is the only holder afterwards.
\<close>

theorem transferOwnership_effect:
  assumes "transferOwnership now fromUserId toUserId d = (ok, d')"
  shows "(ok \<longleftrightarrow> isOwner d fromUserId \<and> fromUserId \<noteq> toUserId
              \<and> (\<exists>t. user_findUnique d toUserId = Some t \<and> \<not> is_banned t))
       \<and> (\<not> ok \<longrightarrow> d' = d)
       \<and> (ok \<longrightarrow>
            (\<exists>t. user_findUnique d toUserId = Some t
               \<and> users d' =
                   map (\<lambda>u. if user_id u = toUserId
                             then u\<lparr>role := ''OWNER'', gems := gems t + 1000000,
                                    level := max (level t) 100, crystals := crystals t + 10000\<rparr>
                             else if user_id u = fromUserId then u\<lparr>role := ''ADMIN''\<rparr> else u)
                     (users d)
               \<and> adminLogs d' = adminLogs d @
                     [\<lparr>admin_id = fromUserId, action = ''TRANSFER_OWNERSHIP'',
                       target_id = Some toUserId,
                       details = Some [(''previous_owner'', JNum (Fin (of_nat fromUserId))),
                                       (''new_owner'', JNum (Fin (of_nat toUserId))),
                                       (''timestamp'', JNum (Fin (of_int now)))]\<rparr>]
               \<and> sessions d' = sessions d \<and> bets d' = bets d)
            \<and> ((\<forall>u \<in> set (users d). role u = ''OWNER'' \<longrightarrow> user_id u = fromUserId) \<longrightarrow>
                 (\<forall>t. user_findUnique d toUserId = Some t \<longrightarrow> role t \<noteq> ''OWNER'')
                 \<and> (\<forall>u \<in> set (users d'). role u = ''OWNER'' \<longrightarrow> user_id u = toUserId)))"
proof (cases "isOwner d fromUserId \<and> fromUserId \<noteq> toUserId
              \<and> (\<exists>t. user_findUnique d toUserId = Some t \<and> \<not> is_banned t)")
  case False
  with assms show ?thesis by (simp add: transferOwnership_cases)
next
  case True
  then obtain t where t: "user_findUnique d toUserId = Some t" and ne: "fromUserId \<noteq> toUserId"
    by blast
  from assms True have ok: "ok" and d': "d' = adminLog_create
              \<lparr>admin_id = fromUserId, action = ''TRANSFER_OWNERSHIP'', target_id = Some toUserId,
               details = Some [(''previous_owner'', JNum (Fin (of_nat fromUserId))),
                               (''new_owner'', JNum (Fin (of_nat toUserId))),
                               (''timestamp'', JNum (Fin (of_int now)))]\<rparr>
              (user_update toUserId
                 (\<lambda>u. u\<lparr>role := ''OWNER'', gems := gems t + 1000000,
                         level := max (level t) 100, crystals := crystals t + 10000\<rparr>)
                 (user_update fromUserId (\<lambda>u. u\<lparr>role := ''ADMIN''\<rparr>) d))"
    using t by (simp_all add: transferOwnership_cases)
  have users: "users d' =
                   map (\<lambda>u. if user_id u = toUserId
                             then u\<lparr>role := ''OWNER'', gems := gems t + 1000000,
                                    level := max (level t) 100, crystals := crystals t + 10000\<rparr>
                             else if user_id u = fromUserId then u\<lparr>role := ''ADMIN''\<rparr> else u)
                     (users d)"
    using ne by (simp add: d' adminLog_create_def user_update_def)
  have rest: "adminLogs d' = adminLogs d @
                     [\<lparr>admin_id = fromUserId, action = ''TRANSFER_OWNERSHIP'',
                       target_id = Some toUserId,
                       details = Some [(''previous_owner'', JNum (Fin (of_nat fromUserId))),
                                       (''new_owner'', JNum (Fin (of_nat toUserId))),
                                       (''timestamp'', JNum (Fin (of_int now)))]\<rparr>]
               \<and> sessions d' = sessions d \<and> bets d' = bets d"
    by (simp add: d' adminLog_create_def user_update_def)
  have tin: "t \<in> set (users d) \<and> user_id t = toUserId"
    using t unfolding user_findUnique_def by (auto dest: find_SomeD')
  have single: "(\<forall>t. user_findUnique d toUserId = Some t \<longrightarrow> role t \<noteq> ''OWNER'')
                 \<and> (\<forall>u \<in> set (users d'). role u = ''OWNER'' \<longrightarrow> user_id u = toUserId)"
    if one: "\<forall>u \<in> set (users d). role u = ''OWNER'' \<longrightarrow> user_id u = fromUserId"
  proof
    show "\<forall>t. user_findUnique d toUserId = Some t \<longrightarrow> role t \<noteq> ''OWNER''"
      using one tin t ne by auto
    show "\<forall>u \<in> set (users d'). role u = ''OWNER'' \<longrightarrow> user_id u = toUserId"
      unfolding users using one by auto
  qed
  from True ok t users rest single show ?thesis by blast
qed


theorem transferOwnership_effect_witness:
  "(\<exists>d'. transferOwnership 0 1 2 example_db = (True, d')
          \<and> map_option role (user_findUnique d' 1) = Some ''ADMIN''
          \<and> user_findUnique d' 2 =
              Some (example_player\<lparr>role := ''OWNER'', gems := 1000100, level := 100,
                                    crystals := 10000\<rparr>)
          \<and> map admin_id (adminLogs d') = [1] \<and> map target_id (adminLogs d') = [Some 2]
          \<and> user_id ` {u \<in> set (users d'). role u = ''OWNER''} \<subseteq> {2})
   \<and> map_option role (user_findUnique example_db 2) = Some ''PLAYER''
   \<and> transferOwnership 0 2 1 example_db = (False, example_db)"
proof -
  define d' where "d' = snd (transferOwnership 0 1 2 example_db)"
  have one: "\<forall>u \<in> set (users example_db). role u = ''OWNER'' \<longrightarrow> user_id u = 1"
    by (simp add: example_defs)
  have "fst (transferOwnership 0 1 2 example_db) = True"
    by (simp add: transferOwnership_def isOwner_def getOwner_def user_findUnique_def example_defs)
  then have ok: "transferOwnership 0 1 2 example_db = (True, d')"
    unfolding d'_def by (metis prod.collapse)
  note eff = transferOwnership_effect [OF ok]
  note succ = eff [THEN conjunct2, THEN conjunct2, THEN mp, OF TrueI]
  from succ [THEN conjunct1] obtain t where
    all: "user_findUnique example_db 2 = Some t
      \<and> users d' =
                   map (\<lambda>u. if user_id u = 2
                             then u\<lparr>role := ''OWNER'', gems := gems t + 1000000,
                                    level := max (level t) 100, crystals := crystals t + 10000\<rparr>
                             else if user_id u = 1 then u\<lparr>role := ''ADMIN''\<rparr> else u)
                     (users example_db)
      \<and> adminLogs d' = adminLogs example_db @
                     [\<lparr>admin_id = 1, action = ''TRANSFER_OWNERSHIP'', target_id = Some 2,
                       details = Some [(''previous_owner'', JNum (Fin (of_nat 1))),
                                       (''new_owner'', JNum (Fin (of_nat 2))),
                                       (''timestamp'', JNum (Fin (of_int 0)))]\<rparr>]
      \<and> sessions d' = sessions example_db \<and> bets d' = bets example_db" ..
  note t = all [THEN conjunct1]
  note users = all [THEN conjunct2, THEN conjunct1]
  note logs = all [THEN conjunct2, THEN conjunct2, THEN conjunct1]
  note owners = succ [THEN conjunct2, THEN mp, OF one, THEN conjunct2]
  from t have t': "t = example_player" by (simp add: user_findUnique_def example_defs)
  have r1: "map_option role (user_findUnique d' 1) = Some ''ADMIN''"
    by (simp add: user_findUnique_def users example_defs)
  have r2: "user_findUnique d' 2 =
              Some (example_player\<lparr>role := ''OWNER'', gems := 1000100, level := 100,
                                    crystals := 10000\<rparr>)"
    by (simp add: user_findUnique_def users t' example_defs)
  have r3: "map admin_id (adminLogs d') = [1] \<and> map target_id (adminLogs d') = [Some 2]"
    by (simp add: logs example_defs)
  have r4: "user_id ` {u \<in> set (users d'). role u = ''OWNER''} \<subseteq> {2}"
  proof
    fix x assume "x \<in> user_id ` {u \<in> set (users d'). role u = ''OWNER''}"
    then obtain u where "u \<in> set (users d')" "role u = ''OWNER''" "x = user_id u" by auto
    with owners show "x \<in> {2}" by simp
  qed
  have r5: "map_option role (user_findUnique example_db 2) = Some ''PLAYER''"
    by (simp add: user_findUnique_def example_defs)
  have no: "transferOwnership 0 2 1 example_db = (False, example_db)"
    by (simp add: transferOwnership_def isOwner_def getOwner_def user_findUnique_def example_defs)
  show ?thesis
    by (intro conjI exI [of _ d']) (rule ok r1 r2 r3 [THEN conjunct1] r3 [THEN conjunct2] r4 r5 no)+
qed

text \<open>
  The claim as first stated fails where two accounts hold the role \<open>OWNER\<close>: the one with
  the lower identifier transfers ownership to the other, the call returns \<open>true\<close> and the
  bonus is paid to an account that already held the role. The method compares the two
  identifiers and never reads the target's role.
\<close>

theorem transferOwnership_effect_counterexample:
  "map_option role (user_findUnique two_owner_db 2) = Some ''OWNER''
   \<and> map_option gems (user_findUnique two_owner_db 2) = Some 100
   \<and> fst (transferOwnership 0 1 2 two_owner_db) = True
   \<and> map_option gems (user_findUnique (snd (transferOwnership 0 1 2 two_owner_db)) 2) =
       Some 1000100
   \<and> map_option role (user_findUnique (snd (transferOwnership 0 1 2 two_owner_db)) 1) =
       Some ''ADMIN''"
  by (simp add: transferOwnership_def isOwner_def getOwner_def user_findUnique_def user_update_def
      adminLog_create_def OWNER_CONFIG_def two_owner_db_def example_defs)

subsection \<open>Mine placement\<close>

lemma cell_number:
  fixes n :: nat
  assumes "c < n"
  shows "(r = p div n \<and> c = p mod n) \<longleftrightarrow> p = r * n + c"
proof
  assume "r = p div n \<and> c = p mod n"
  then show "p = r * n + c" using div_mult_mod_eq [of p n] by simp
next
  assume "p = r * n + c"
  with assms show "r = p div n \<and> c = p mod n" by simp
qed

lemma placeMine_square:
  assumes "square n g" "pos < n * n"
  shows "\<exists>g'. placeMine n g pos = Some g' \<and> square n g'
           \<and> (\<forall>r < n. \<forall>c < n. g' ! r ! c = (g ! r ! c \<or> pos = r * n + c))"
proof -
  have n: "0 < n" using assms(2) by (cases n) simp_all
  let ?row = "pos div n" and ?col = "pos mod n"
  have row: "?row < n" using assms(2) n by (simp add: less_mult_imp_div_less)
  have col: "?col < n" using n by simp
  have len: "length g = n" and rows: "\<And>r. r < n \<Longrightarrow> length (g ! r) = n"
    using assms(1) by (auto simp: square_def)
  let ?g' = "g[?row := (g ! ?row)[?col := True]]"
  have eq: "placeMine n g pos = Some ?g'"
    using row col len rows [OF row] by (simp add: placeMine_def array_set_def Let_def)
  have sq: "square n ?g'"
    unfolding square_def
  proof (intro conjI ballI)
    show "length ?g' = n" using len by simp
    fix x assume "x \<in> set ?g'"
    then have "x \<in> insert ((g ! ?row)[?col := True]) (set g)"
      using set_update_subset_insert by (rule subsetD [rotated])
    then show "length x = n"
      using assms(1) rows [OF row] by (auto simp: square_def)
  qed
  have cells: "?g' ! r ! c = (g ! r ! c \<or> pos = r * n + c)" if "r < n" "c < n" for r c
  proof (cases "r = ?row")
    case True
    then show ?thesis
      using that len rows [OF row] cell_number [OF that(2), of r pos]
      by (auto simp: nth_list_update)
  next
    case False
    then show ?thesis
      using that len cell_number [OF that(2), of r pos] by auto
  qed
  from eq sq cells show ?thesis by blast
qed


lemma placeMines_square:
  assumes "square n g" "\<forall>p \<in> set ps. p < n * n"
  shows "\<exists>g'. placeMines n ps g = Some g' \<and> square n g'
           \<and> (\<forall>r < n. \<forall>c < n. g' ! r ! c = (g ! r ! c \<or> r * n + c \<in> set ps))"
  using assms
proof (induction ps arbitrary: g)
  case Nil
  then show ?case by simp
next
  case (Cons p ps)
  from Cons.prems have "p < n * n" by simp
  from placeMine_square [OF Cons.prems(1) this] obtain g1 where
    g1: "placeMine n g p = Some g1" and sq1: "square n g1"
    and c1: "\<And>r c. r < n \<Longrightarrow> c < n \<Longrightarrow> g1 ! r ! c = (g ! r ! c \<or> p = r * n + c)"
    by blast
  from Cons.prems have "\<forall>q \<in> set ps. q < n * n" by simp
  from Cons.IH [OF sq1 this] obtain g' where
    g': "placeMines n ps g1 = Some g'" and sq': "square n g'"
    and c': "\<And>r c. r < n \<Longrightarrow> c < n \<Longrightarrow> g' ! r ! c = (g1 ! r ! c \<or> r * n + c \<in> set ps)"
    by blast
  have "placeMines n (p # ps) g = Some g'" using g1 g' by simp
  moreover have "\<forall>r < n. \<forall>c < n. g' ! r ! c = (g ! r ! c \<or> r * n + c \<in> set (p # ps))"
    using c1 c' by auto
  ultimately show ?case using sq' by blast
qed


lemma concat_square_nth:
  assumes "\<forall>row \<in> set g. length row = n" "i < length g * n"
  shows "concat g ! i = g ! (i div n) ! (i mod n)"
  using assms
proof (induction g arbitrary: i)
  case Nil
  then show ?case by simp
next
  case (Cons row g)
  have len: "length row = n" using Cons.prems(1) by simp
  show ?case
  proof (cases "i < n")
    case True
    then show ?thesis using len by (simp add: nth_append)
  next
    case False
    then have n: "0 < n" using Cons.prems(2) by (cases n) simp_all
    have "i - n < length g * n" using Cons.prems(2) False by simp
    with Cons.IH [of "i - n"] Cons.prems(1)
    have IH: "concat g ! (i - n) = g ! ((i - n) div n) ! ((i - n) mod n)" by simp
    have m: "(i - n) mod n = i mod n" using False by (simp add: le_mod_geq)
    have d: "i div n = Suc ((i - n) div n)" using False n by (simp add: le_div_geq)
    show ?thesis using False len IH by (simp add: nth_append m d)
  qed
qed

lemma concat_square_length:
  assumes "\<forall>row \<in> set g. length row = n"
  shows "length (concat g) = length g * n"
  using assms by (induction g) simp_all

lemma count_cells:
  assumes "square n g"
  shows "length (filter (\<lambda>b. b) (concat g)) = card {p. p < n * n \<and> g ! (p div n) ! (p mod n)}"
proof -
  have rows: "\<forall>row \<in> set g. length row = n" and len: "length g = n"
    using assms by (simp_all add: square_def)
  have "concat g = map (\<lambda>p. g ! (p div n) ! (p mod n)) [0 ..< n * n]"
  proof (rule nth_equalityI)
    show "length (concat g) = length (map (\<lambda>p. g ! (p div n) ! (p mod n)) [0 ..< n * n])"
      using concat_square_length [OF rows] len by simp
    fix i assume "i < length (concat g)"
    then have "i < length g * n" using concat_square_length [OF rows] by simp
    then show "concat g ! i = map (\<lambda>p. g ! (p div n) ! (p mod n)) [0 ..< n * n] ! i"
      using concat_square_nth [OF rows] len by simp
  qed
  then have "length (filter (\<lambda>b. b) (concat g)) =
             length (filter (\<lambda>p. g ! (p div n) ! (p mod n)) [0 ..< n * n])"
    by (simp add: filter_map comp_def)
  also have "\<dots> = card ({p. g ! (p div n) ! (p mod n)} \<inter> set [0 ..< n * n])"
    by (rule distinct_length_filter) simp
  also have "{p. g ! (p div n) ! (p mod n)} \<inter> set [0 ..< n * n] =
             {p. p < n * n \<and> g ! (p div n) ! (p mod n)}"
    by auto
  finally show ?thesis .
qed


text \<open>
  Claim C8. With \<open>1 \<le> M < N\<^sup>2\<close> and any permutation left by the shuffle, the game starts
  with an \<open>N\<close> by \<open>N\<close> grid whose mines are exactly the first \<open>M\<close> shuffled cell numbers:
  these are \<open>M\<close> distinct cells, cell \<open>(r, c)\<close> is a mine precisely when \<open>r * N + c\<close> is
  one of them, and the grid holds \<open>M\<close> mines in all.
\<close>

theorem initializeGame_places_mines:
  assumes "1 \<le> M" "M < N * N" "mset shuffled = mset [0 ..< N * N]"
  shows "\<exists>gs. initializeGame N M bet shuffled seed nonce = Some gs
           \<and> length (grid gs) = N \<and> (\<forall>row \<in> set (grid gs). length row = N)
           \<and> distinct (take M shuffled) \<and> length (take M shuffled) = M
           \<and> (\<forall>r < N. \<forall>c < N. grid gs ! r ! c = (r * N + c \<in> set (take M shuffled)))
           \<and> length (filter (\<lambda>b. b) (concat (grid gs))) = M
           \<and> mines gs = M"
proof -
  let ?ps = "take M shuffled"
  let ?empty = "replicate N (replicate N False)"
  have set_sh: "set shuffled = {0 ..< N * N}"
    using mset_eq_setD [OF assms(3)] by simp
  have dist_sh: "distinct shuffled"
    using mset_eq_imp_distinct_iff [OF assms(3)] by simp
  have len_sh: "length shuffled = N * N"
    using mset_eq_length [OF assms(3)] by simp
  have dist: "distinct ?ps" using dist_sh by simp
  have len: "length ?ps = M" using len_sh assms(2) by simp
  have bound: "\<forall>p \<in> set ?ps. p < N * N"
    using set_take_subset [of M shuffled] set_sh by auto
  have sq0: "square N ?empty" by (simp add: square_def)
  from placeMines_square [OF sq0 bound] obtain g where
    g: "placeMines N ?ps ?empty = Some g" and sq: "square N g"
    and cells: "\<And>r c. r < N \<Longrightarrow> c < N \<Longrightarrow> g ! r ! c = (?empty ! r ! c \<or> r * N + c \<in> set ?ps)"
    by blast
  have cells': "g ! r ! c = (r * N + c \<in> set ?ps)" if "r < N" "c < N" for r c
    using cells [OF that] that by simp
  have n: "0 < N" using assms(2) by (cases N) simp_all
  have "{p. p < N * N \<and> g ! (p div N) ! (p mod N)} = set ?ps"
  proof (rule set_eqI)
    fix p
    show "p \<in> {p. p < N * N \<and> g ! (p div N) ! (p mod N)} \<longleftrightarrow> p \<in> set ?ps"
    proof (cases "p < N * N")
      case True
      then have "p div N < N" using n by (simp add: less_mult_imp_div_less)
      moreover have "p mod N < N" using n by simp
      ultimately have "g ! (p div N) ! (p mod N) = (p div N * N + p mod N \<in> set ?ps)"
        by (rule cells')
      then show ?thesis using True by simp
    next
      case False
      then show ?thesis using bound by auto
    qed
  qed
  then have "length (filter (\<lambda>b. b) (concat g)) = card (set ?ps)"
    using count_cells [OF sq] by simp
  then have count: "length (filter (\<lambda>b. b) (concat g)) = M"
    using distinct_card [OF dist] len by simp
  let ?gs = "\<lparr>grid = g, revealed = ?empty, flagged = ?empty, mines = M,
               betAmount = bet, currentMultiplier = Fin 1, gameActive = True,
               gameOver = False, won = False, serverSeed = seed, clientNonce = nonce\<rparr>"
  have init: "initializeGame N M bet shuffled seed nonce = Some ?gs"
    using g by (simp add: initializeGame_def Let_def)
  have shape: "length (grid ?gs) = N \<and> (\<forall>row \<in> set (grid ?gs). length row = N)"
    using sq by (simp add: square_def)
  have c: "\<forall>r < N. \<forall>c < N. grid ?gs ! r ! c = (r * N + c \<in> set ?ps)"
    using cells' by simp
  show ?thesis
    by (intro exI [of _ ?gs] conjI) (use init shape dist len c count in simp_all)
qed


theorem initializeGame_places_mines_witness:
  "(1::nat) \<le> 2 \<and> (2::nat) < 3 * 3
   \<and> mset [4, 0, 8, 2, 6, 1, 3, 5, 7] = mset [0 ..< 3 * 3]
   \<and> (\<exists>gs. initializeGame 3 2 100 [4, 0, 8, 2, 6, 1, 3, 5, 7] ''seed'' ''nonce'' = Some gs
          \<and> grid gs = [[True, False, False], [False, True, False], [False, False, False]]
          \<and> length (filter (\<lambda>b. b) (concat (grid gs))) = 2)"
proof -
  have m: "(1::nat) \<le> 2" "(2::nat) < 3 * 3" by simp_all
  have "[0 ..< 3 * 3] = [0, 1, 2, 3, 4, 5, 6, 7, 8 :: nat]" by code_simp
  then have p: "mset [4, 0, 8, 2, 6, 1, 3, 5, 7] = mset [0 ..< 3 * 3]"
    by simp
  from initializeGame_places_mines [OF m p, of 100 "''seed''" "''nonce''"]
  obtain gs where gs: "initializeGame 3 2 100 [4, 0, 8, 2, 6, 1, 3, 5, 7] ''seed'' ''nonce'' = Some gs"
    and count: "length (filter (\<lambda>b. b) (concat (grid gs))) = 2"
    by (elim exE conjE)
  have "map_option grid (initializeGame 3 2 100 [4, 0, 8, 2, 6, 1, 3, 5, 7] ''seed'' ''nonce'') =
        Some [[True, False, False], [False, True, False], [False, False, False]]"
    by code_simp
  with gs have "grid gs = [[True, False, False], [False, True, False], [False, False, False]]"
    by simp
  with m p gs count show ?thesis by blast
qed


end
